theory Spec2Isabelle
  imports Complex_Main "HOL-Library.Log_Nat"
begin

section \<open>JavaScript numbers\<close>

text \<open>
  A \<open>number\<close> is an IEEE 754 double: a finite value, modelled by the rational it
  denotes, one of the two infinities, or \<open>NaN\<close>. The sign of zero is not modelled. A
  decimal literal of a program denotes the double nearest to it, which is \<open>roundToDouble\<close>
  of its value; an integer of magnitude up to \<open>2 ^ 53\<close> denotes itself.
\<close>

datatype number = Finite rat | PosInfinity | NegInfinity | NaN

text \<open>
  The integer part of the binary logarithm of a positive rational \<open>a / b\<close>: the
  difference \<open>d\<close> of the bit lengths of \<open>a\<close> and \<open>b\<close> or \<open>d - 1\<close>.
\<close>

definition ilog2 :: "rat \<Rightarrow> int" where
  "ilog2 q =
     (let (a, b) = quotient_of q;
          d = bitlen a - bitlen b
      in if power_int 2 d \<le> q then d else d - 1)"

text \<open>Rounding to the nearest integer, a tie to the even one.\<close>

definition roundHalfEven :: "rat \<Rightarrow> int" where
  "roundHalfEven x =
     (let f = \<lfloor>x\<rfloor>; r = x - of_int f
      in if r < 1 / 2 then f else if 1 / 2 < r then f + 1 else if even f then f else f + 1)"

text \<open>
  The double that an exact result is rounded to (round to nearest, ties to even): 53
  significant bits, the unit in the last place not below \<open>2 ^ -1074\<close> (subnormal
  numbers), and an infinity when the rounded magnitude reaches \<open>2 ^ 1024\<close>.
\<close>

definition roundToDouble :: "rat \<Rightarrow> number" where
  "roundToDouble q =
     (if q = 0 then Finite 0
      else
        let p = max (ilog2 \<bar>q\<bar> - 52) (- 1074);
            v = of_int (roundHalfEven (\<bar>q\<bar> / power_int 2 p)) * power_int 2 p
        in if power_int 2 1024 \<le> v then (if 0 < q then PosInfinity else NegInfinity)
           else Finite (if 0 < q then v else - v))"

definition number_sign :: "number \<Rightarrow> int" where
  "number_sign a =
     (case a of Finite q \<Rightarrow> (if 0 < q then 1 else if q < 0 then - 1 else 0)
      | PosInfinity \<Rightarrow> 1 | NegInfinity \<Rightarrow> - 1 | NaN \<Rightarrow> 0)"

text \<open>The operators \<open>a * b\<close> and \<open>a + b\<close> on numbers.\<close>

fun number_mul :: "number \<Rightarrow> number \<Rightarrow> number" where
  "number_mul (Finite x) (Finite y) = roundToDouble (x * y)"
| "number_mul NaN b = NaN"
| "number_mul a NaN = NaN"
| "number_mul a b =
     (if number_sign a * number_sign b = 0 then NaN
      else if 0 < number_sign a * number_sign b then PosInfinity else NegInfinity)"

fun number_add :: "number \<Rightarrow> number \<Rightarrow> number" where
  "number_add (Finite x) (Finite y) = roundToDouble (x + y)"
| "number_add NaN b = NaN"
| "number_add a NaN = NaN"
| "number_add PosInfinity NegInfinity = NaN"
| "number_add NegInfinity PosInfinity = NaN"
| "number_add PosInfinity b = PosInfinity"
| "number_add NegInfinity b = NegInfinity"
| "number_add (Finite x) b = b"

text \<open>
  The comparison \<open>a < b\<close>, which is false when an operand is \<open>NaN\<close>, and \<open>a >= b\<close>,
  which is false when an operand is \<open>NaN\<close> and the negation of \<open>a < b\<close> otherwise.
\<close>

fun number_less :: "number \<Rightarrow> number \<Rightarrow> bool" where
  "number_less (Finite x) (Finite y) = (x < y)"
| "number_less NaN b = False"
| "number_less a NaN = False"
| "number_less a NegInfinity = False"
| "number_less PosInfinity b = False"
| "number_less a b = True"

definition number_ge :: "number \<Rightarrow> number \<Rightarrow> bool" where
  "number_ge a b \<longleftrightarrow> a \<noteq> NaN \<and> b \<noteq> NaN \<and> \<not> number_less a b"

text \<open>\<open>Math.min(a, b)\<close>: \<open>NaN\<close> when an argument is \<open>NaN\<close>, else the smaller one.\<close>

definition number_min :: "number \<Rightarrow> number \<Rightarrow> number" where
  "number_min a b = (if a = NaN \<or> b = NaN then NaN else if number_less b a then b else a)"

text \<open>
  \<open>Math.pow(b, n)\<close> for an exponent that is a natural number: 1 for the exponent 0,
  also of \<open>NaN\<close>; \<open>NaN\<close> of \<open>NaN\<close>; the infinities by the parity of the exponent. For
  a finite base the language leaves the precision to the implementation; the model takes
  the correctly rounded power, which is the exact power whenever that is a double.
\<close>

definition number_pow :: "number \<Rightarrow> nat \<Rightarrow> number" where
  "number_pow b n =
     (if n = 0 then Finite 1
      else case b of
             Finite q \<Rightarrow> roundToDouble (q ^ n)
           | PosInfinity \<Rightarrow> PosInfinity
           | NegInfinity \<Rightarrow> (if odd n then NegInfinity else PosInfinity)
           | NaN \<Rightarrow> NaN)"

section \<open>Request state (GRIP_ASYNC_REQUEST_STATE.md, State Model)\<close>

text \<open>
  A clock reading \<open>Date.now()\<close> is a whole number of milliseconds; clock readings, the
  timestamps taken from them and the cache options added to them are modelled as
  integers. \<open>retryAt\<close> also receives the result of the backoff computation and is a
  \<open>number\<close>. An \<open>Error\<close> object is modelled by its message.
\<close>

type_synonym timestamp = int

text \<open>
  The tagged union \<open>RequestState\<close>; every variant carries \<open>retryAt: number | null\<close>
  from \<open>RequestStateBase\<close>.
\<close>

datatype RequestState =
    Idle (retryAt: "number option")
  | Loading (initiatedAt: timestamp) (retryAt: "number option")
  | Success (retrievedAt: timestamp) (retryAt: "number option")
  | Error (error: string) (failedAt: timestamp) (retryAt: "number option")
  | StaleWhileRevalidate (retrievedAt: timestamp) (refreshInitiatedAt: timestamp)
      (retryAt: "number option")
  | StaleWithError (retrievedAt: timestamp) (error: string) (failedAt: timestamp)
      (retryAt: "number option")

text \<open>The discriminant \<open>state.type\<close>.\<close>

fun type_of :: "RequestState \<Rightarrow> string" where
  "type_of (Idle _) = ''idle''"
| "type_of (Loading _ _) = ''loading''"
| "type_of (Success _ _) = ''success''"
| "type_of (Error _ _ _) = ''error''"
| "type_of (StaleWhileRevalidate _ _ _) = ''stale-while-revalidate''"
| "type_of (StaleWithError _ _ _ _) = ''stale-with-error''"

text \<open>The object spread \<open>{ ...state, retryAt: r }\<close>: a new state, same variant and fields.\<close>

fun with_retryAt :: "RequestState \<Rightarrow> number option \<Rightarrow> RequestState" where
  "with_retryAt (Idle _) r = Idle r"
| "with_retryAt (Loading i _) r = Loading i r"
| "with_retryAt (Success t _) r = Success t r"
| "with_retryAt (Error e f _) r = Error e f r"
| "with_retryAt (StaleWhileRevalidate t i _) r = StaleWhileRevalidate t i r"
| "with_retryAt (StaleWithError t e f _) r = StaleWithError t e f r"

subsection \<open>State helper functions\<close>

definition hasData :: "RequestState \<Rightarrow> bool" where
  "hasData state \<longleftrightarrow>
     type_of state = ''success'' \<or> type_of state = ''stale-while-revalidate'' \<or>
     type_of state = ''stale-with-error''"

definition isLoading :: "RequestState \<Rightarrow> bool" where
  "isLoading state \<longleftrightarrow> type_of state = ''loading''"

section \<open>Retry and refresh times\<close>

text \<open>The nullish coalescing operator \<open>x ?? d\<close>, also used for a default parameter.\<close>

definition nullish :: "'a option \<Rightarrow> 'a \<Rightarrow> 'a" where
  "nullish x d = (case x of None \<Rightarrow> d | Some v \<Rightarrow> v)"

text \<open>\<open>interface RetryConfig\<close>: every field is optional.\<close>

record RetryConfig =
  maxRetries :: "number option"
  initialDelayMs :: "number option"
  maxDelayMs :: "number option"
  backoffMultiplier :: "number option"
  retryOnError :: "(string \<Rightarrow> bool) option"

text \<open>
  \<open>calculateRetryTime(attempt, config, baseTime = Date.now())\<close>. The first argument of the
  model is the clock reading \<open>Date.now()\<close> that the default parameter takes. \<open>attempt\<close> is
  the retry counter, a natural number.
\<close>

definition calculateRetryTime ::
  "timestamp \<Rightarrow> nat \<Rightarrow> RetryConfig \<Rightarrow> number option \<Rightarrow> number option" where
  "calculateRetryTime clock attempt config baseTime =
     (if number_ge (Finite (of_nat attempt)) (nullish (maxRetries config) (Finite 3)) then None
      else
        let delay = number_min
                      (number_mul (nullish (initialDelayMs config) (Finite 1000))
                         (number_pow (nullish (backoffMultiplier config) (Finite 2)) attempt))
                      (nullish (maxDelayMs config) (Finite 30000))
        in Some (number_add (nullish baseTime (Finite (of_int clock))) delay))"

text \<open>
  \<open>calculateRefreshTime(retrievedAt, ttlMs, refreshBeforeExpiryMs = 0)\<close>, with the clock
  reading \<open>Date.now()\<close> as first argument.
\<close>

definition calculateRefreshTime ::
  "timestamp \<Rightarrow> timestamp \<Rightarrow> int \<Rightarrow> int option \<Rightarrow> timestamp option" where
  "calculateRefreshTime clock retrieved ttlMs refreshBeforeExpiryMs =
     (if ttlMs \<le> 0 then None
      else
        let expiryTime = retrieved + ttlMs;
            refreshTime = expiryTime - nullish refreshBeforeExpiryMs 0
        in if refreshTime > clock then Some refreshTime else None)"

section \<open>History entries, snapshots and the array store\<close>

text \<open>\<open>interface StateHistoryEntry\<close>; the optional \<open>transitionReason\<close> is an option.\<close>

record StateHistoryEntry =
  h_state :: RequestState
  h_timestamp :: timestamp
  h_requestKey :: "string option"
  h_transitionReason :: "string option"

text \<open>
  History arrays are JavaScript objects: the internal buffer is mutated in place by
  \<open>push\<close> and \<open>shift\<close>, and \<open>publishState\<close> hands out a frozen copy. To make the aliasing
  visible, arrays live in a store and are named by their address. A write to a frozen
  array leaves it as it is (strict-mode code additionally gets a \<open>TypeError\<close>); the tap
  itself only writes to its internal buffer, which is never frozen. \<open>shift\<close> on an empty
  array changes nothing. The entries are values: the sources treat them as immutable
  by convention and never write to an entry.
\<close>

type_synonym addr = nat

record harray =
  elems :: "StateHistoryEntry list"
  frozen :: bool

definition array_push :: "harray \<Rightarrow> StateHistoryEntry \<Rightarrow> harray" where
  "array_push a e = (if frozen a then a else a\<lparr>elems := elems a @ [e]\<rparr>)"

definition array_shift :: "harray \<Rightarrow> harray" where
  "array_shift a = (if frozen a then a else a\<lparr>elems := tl (elems a)\<rparr>)"

text \<open>
  The index assignment \<open>a[i] = e\<close>, for \<open>i\<close> within the array (it is only applied to
  published arrays, which are frozen).
\<close>

definition array_assign :: "harray \<Rightarrow> nat \<Rightarrow> StateHistoryEntry \<Rightarrow> harray" where
  "array_assign a i e = (if frozen a then a else a\<lparr>elems := (elems a)[i := e]\<rparr>)"

text \<open>\<open>Object.freeze([...xs])\<close>: a new array with the same elements, frozen.\<close>

definition frozen_copy :: "harray \<Rightarrow> harray" where
  "frozen_copy a = \<lparr>elems = elems a, frozen = True\<rparr>"

text \<open>
  \<open>interface AsyncRequestState\<close>, the published snapshot; \<open>a_history\<close> is the address of
  the array the snapshot refers to.
\<close>

record AsyncRequestState =
  a_state :: RequestState
  a_requestKey :: "string option"
  a_hasListeners :: bool
  a_history :: addr

text \<open>
  An \<open>AsyncTapController\<close> is either the closure object built by \<open>createController(dest)\<close>
  or the object of empty functions built by \<open>createNoOpController()\<close>.
\<close>

datatype AsyncTapController = LiveController | NoOpController

definition createController :: AsyncTapController where
  "createController = LiveController"

definition createNoOpController :: AsyncTapController where
  "createNoOpController = NoOpController"

section \<open>Tap configuration, inputs and per-destination state\<close>

type_synonym grip = string
type_synonym params = "string list"
type_synonym updates = "(grip \<times> string) list"
type_synonym handle = nat

text \<open>
  What the tap does to the outside: values published to the destination, cancellations,
  timers (with the time they are armed for) and fetches. Timer and abort handles are
  opaque.
\<close>

datatype effect =
    PublishState AsyncRequestState
  | PublishController AsyncTapController
  | Publish updates
  | Abort handle
  | ClearTimeout handle
  | SetTimeout handle number
  | Fetch "handle option" "string option"

text \<open>
  The fields of the tap that the functions read: \<open>provides\<close>, the optional grips,
  whether \<open>engine\<close>, \<open>homeContext\<close> and \<open>producer\<close> are all set (\<open>attached\<close>),
  \<open>getRequestKey\<close> and \<open>getResetUpdates\<close> (not in the sources, taken as parameters) and
  the options.
\<close>

record AsyncTapConfig =
  provides :: "grip list"
  stateGrip :: "grip option"
  controllerGrip :: "grip option"
  attached :: bool
  getRequestKey :: "params \<Rightarrow> string option"
  getResetUpdates :: "params \<Rightarrow> updates"
  retry :: RetryConfig
  cacheTtlMs :: int
  refreshBeforeExpiryMs :: "int option"

text \<open>
  What one synchronous entry into the tap reads from outside: the clock \<open>Date.now()\<close>,
  the result of \<open>getDestinationParams(dest)\<close>, and the mapped result of a fresh cache
  entry for the resolved key, if there is one.
\<close>

record Env =
  now :: timestamp
  destinationParams :: "params option"
  cached :: "updates option"

text \<open>
  \<open>interface DestState\<close> (with \<open>inflightSeq\<close> from the specification's data model).
\<close>

record DestState =
  currentState :: RequestState
  requestKey :: "string option"
  listenerCount :: int
  retryAttempt :: nat
  retryTimer :: "handle option"
  refreshTimer :: "handle option"
  history :: addr
  historySize :: nat
  controller :: "AsyncTapController option"
  abortController :: "handle option"
  inflightSeq :: nat

text \<open>
  The state seen from one destination: its \<open>DestState\<close>, its entry of the tap's
  \<open>destinationRequestKeys\<close> and the tap's \<open>listenerCounts\<close>, the array store, the next
  free address and handle, and the effects so far, oldest first.
\<close>

record TapState = DestState +
  destinationRequestKey :: "string option"
  listenerCounts :: "string \<Rightarrow> nat"
  arrays :: "addr \<Rightarrow> harray"
  nextAddr :: addr
  nextHandle :: handle
  trace :: "effect list"

text \<open>
  Modelled from the spec: \<open>getDestState\<close> is not in the sources. A record is created
  lazily with the defaults of the specification's data model (\<open>idle\<close>, no key, no
  listeners, empty history) and the configured \<open>historySize\<close>.
\<close>

definition initialDestState :: "nat \<Rightarrow> TapState" where
  "initialDestState n =
     \<lparr>currentState = Idle None, requestKey = None, listenerCount = 0, retryAttempt = 0,
      retryTimer = None, refreshTimer = None, history = 0, historySize = n,
      controller = None, abortController = None, inflightSeq = 0,
      destinationRequestKey = None, listenerCounts = (\<lambda>_. 0),
      arrays = (\<lambda>_. \<lparr>elems = [], frozen = False\<rparr>), nextAddr = 1, nextHandle = 1,
      trace = []\<rparr>"

text \<open>The contents of the internal history buffer.\<close>

definition historyEntries :: "TapState \<Rightarrow> StateHistoryEntry list" where
  "historyEntries s = elems (arrays s (history s))"

text \<open>JavaScript truthiness of a \<open>string | null\<close>: \<open>null\<close> and the empty string are falsy.\<close>

definition truthy :: "string option \<Rightarrow> bool" where
  "truthy k = (case k of None \<Rightarrow> False | Some v \<Rightarrow> v \<noteq> [])"

text \<open>
  The key of the current parameters, as \<open>executeRetry\<close> computes it:
  \<open>currentParams ? this.getRequestKey(currentParams) : null\<close>.
\<close>

definition resolveKey :: "AsyncTapConfig \<Rightarrow> Env \<Rightarrow> string option" where
  "resolveKey cfg env =
     (case destinationParams env of None \<Rightarrow> None | Some p \<Rightarrow> getRequestKey cfg p)"

definition emit :: "effect \<Rightarrow> TapState \<Rightarrow> TapState" where
  "emit e s = s\<lparr>trace := trace s @ [e]\<rparr>"

section \<open>Publishing state and recording history\<close>

text \<open>
  The object literal \<open>asyncState\<close> of \<open>publishState\<close>, but for its history: in state
  \<open>s\<close> the frozen copy is allocated at the next free address.
\<close>

definition snapshot :: "TapState \<Rightarrow> AsyncRequestState" where
  "snapshot s = \<lparr>a_state = currentState s, a_requestKey = requestKey s,
                  a_hasListeners = (listenerCount s > 0), a_history = nextAddr s\<rparr>"

text \<open>
  \<open>publishState(dest)\<close>: build the snapshot with a frozen copy of the history buffer,
  \<open>Object.freeze([...state.history])\<close>, and publish it (the sources elide the call that
  publishes to the state grip).
\<close>

definition publishState :: "TapState \<Rightarrow> TapState" where
  "publishState s =
     (let copy = frozen_copy (arrays s (history s));
          asyncState = snapshot s
      in emit (PublishState asyncState)
           (s\<lparr>arrays := (arrays s)(nextAddr s := copy), nextAddr := nextAddr s + 1\<rparr>))"

text \<open>\<open>addHistoryEntry(dest, newState, reason)\<close>.\<close>

definition addHistoryEntry ::
  "Env \<Rightarrow> RequestState \<Rightarrow> string option \<Rightarrow> TapState \<Rightarrow> TapState" where
  "addHistoryEntry env newState reason s =
     (if historySize s = 0 then s
      else
        let entry = \<lparr>h_state = currentState s, h_timestamp = now env,
                     h_requestKey = requestKey s, h_transitionReason = reason\<rparr>;
            s1 = s\<lparr>arrays :=
                     (arrays s)(history s := array_push (arrays s (history s)) entry)\<rparr>;
            s2 = (if length (elems (arrays s1 (history s1))) > historySize s1
                  then s1\<lparr>arrays :=
                            (arrays s1)(history s1 := array_shift (arrays s1 (history s1)))\<rparr>
                  else s1);
            s3 = s2\<lparr>currentState := newState\<rparr>
        in publishState s3)"

text \<open>
  Modelled from the spec: the transition step of the part of \<open>kickoff\<close> that is not in
  the sources. Every transition sets the new state and emits a snapshot, and pushes a
  history entry unless \<open>historySize\<close> is 0.
\<close>

definition transition ::
  "Env \<Rightarrow> RequestState \<Rightarrow> string option \<Rightarrow> TapState \<Rightarrow> TapState" where
  "transition env newState reason s =
     (if historySize s = 0 then publishState (s\<lparr>currentState := newState\<rparr>)
      else addHistoryEntry env newState reason s)"

section \<open>Timers and cancellation\<close>

text \<open>
  The statement \<open>if (state.retryTimer) { clearTimeout(state.retryTimer); state.retryTimer
  = null; }\<close> and the same for \<open>refreshTimer\<close>.
\<close>

definition clearRetryTimer :: "TapState \<Rightarrow> TapState" where
  "clearRetryTimer s =
     (case retryTimer s of None \<Rightarrow> s
      | Some t \<Rightarrow> (emit (ClearTimeout t) s)\<lparr>retryTimer := None\<rparr>)"

definition clearRefreshTimer :: "TapState \<Rightarrow> TapState" where
  "clearRefreshTimer s =
     (case refreshTimer s of None \<Rightarrow> s
      | Some t \<Rightarrow> (emit (ClearTimeout t) s)\<lparr>refreshTimer := None\<rparr>)"

text \<open>
  Modelled from the spec: \<open>cancelRetry(dest)\<close> is not in the sources. The controller
  table of the specification gives it: no abort, cancel the retry and the refresh timer,
  no change of \<open>retryAttempt\<close>, no kickoff.
\<close>

definition cancelRetry :: "TapState \<Rightarrow> TapState" where
  "cancelRetry s = clearRefreshTimer (clearRetryTimer s)"

text \<open>
  The statement \<open>if (state.abortController) { state.abortController.abort();
  this.addHistoryEntry(dest, state.currentState, reason); state.abortController =
  undefined; }\<close> of \<open>kickoff\<close> and \<open>handleRequestKeyChange\<close>.
\<close>

definition abortInflight :: "Env \<Rightarrow> string \<Rightarrow> TapState \<Rightarrow> TapState" where
  "abortInflight env reason s =
     (case abortController s of None \<Rightarrow> s
      | Some c \<Rightarrow>
          (let s1 = emit (Abort c) s
           in (addHistoryEntry env (currentState s1) (Some reason) s1)
                \<lparr>abortController := None\<rparr>))"

section \<open>Scheduling\<close>

text \<open>
  Modelled from the spec: the TTL refresh scheduler is not in the sources. On a success
  publication the refresh time is \<open>calculateRefreshTime\<close>; nothing is scheduled when
  there is none or the destination has no listeners; otherwise a one-shot timer is armed
  and \<open>retryAt\<close> records the refresh time.
\<close>

definition scheduleRefresh ::
  "AsyncTapConfig \<Rightarrow> Env \<Rightarrow> timestamp \<Rightarrow> TapState \<Rightarrow> TapState" where
  "scheduleRefresh cfg env retrieved s =
     (case calculateRefreshTime (now env) retrieved (cacheTtlMs cfg)
             (refreshBeforeExpiryMs cfg) of
        None \<Rightarrow> s
      | Some refreshAt \<Rightarrow>
          if listenerCount s > 0
          then publishState
                 ((emit (SetTimeout (nextHandle s) (Finite (of_int refreshAt))) s)
                    \<lparr>refreshTimer := Some (nextHandle s), nextHandle := nextHandle s + 1,
                     currentState :=
                       with_retryAt (currentState s) (Some (Finite (of_int refreshAt)))\<rparr>)
          else s)"

text \<open>
  Modelled from the spec: the retry scheduler is not in the sources. After a retryable
  failure a retry is scheduled if the destination has listeners and \<open>calculateRetryTime\<close>
  gives a time for the current \<open>retryAttempt\<close>; \<open>retryAttempt\<close> is incremented at schedule
  time. Otherwise \<open>retryAt\<close> is \<open>null\<close>.
\<close>

definition scheduleRetry :: "AsyncTapConfig \<Rightarrow> Env \<Rightarrow> TapState \<Rightarrow> TapState" where
  "scheduleRetry cfg env s =
     (case (if listenerCount s > 0
            then calculateRetryTime (now env) (retryAttempt s) (retry cfg) None else None) of
        None \<Rightarrow> publishState (s\<lparr>currentState := with_retryAt (currentState s) None\<rparr>)
      | Some t \<Rightarrow>
          publishState
            ((emit (SetTimeout (nextHandle s) t) s)
               \<lparr>retryTimer := Some (nextHandle s), nextHandle := nextHandle s + 1,
                retryAttempt := retryAttempt s + 1,
                currentState := with_retryAt (currentState s) (Some t)\<rparr>))"

section \<open>The request runner\<close>

text \<open>
  Modelled from the spec: the state a new request for the unchanged key moves to. With
  data available (\<open>success\<close>, \<open>stale-while-revalidate\<close>, \<open>stale-with-error\<close>) it is
  \<open>stale-while-revalidate\<close> with \<open>retrievedAt\<close> preserved, else \<open>loading\<close>.
\<close>

fun nextRequestState :: "timestamp \<Rightarrow> RequestState \<Rightarrow> RequestState" where
  "nextRequestState t (Success r _) = StaleWhileRevalidate r t None"
| "nextRequestState t (StaleWhileRevalidate r _ _) = StaleWhileRevalidate r t None"
| "nextRequestState t (StaleWithError r _ _ _) = StaleWhileRevalidate r t None"
| "nextRequestState t _ = Loading t None"

text \<open>
  Modelled from the spec: the part of \<open>kickoff\<close> that the sources elide (\<open>... rest of
  kickoff logic ...\<close>), up to the call of the fetcher: bump \<open>inflightSeq\<close>; unless
  \<open>forceRefetch\<close>, a fresh cache hit publishes the mapped result, moves to
  \<open>success(retrievedAt = now)\<close>, schedules the TTL refresh and returns; otherwise move to
  the next state and invoke the fetcher with the cancel token.
\<close>

definition kickoff_rest :: "AsyncTapConfig \<Rightarrow> Env \<Rightarrow> bool \<Rightarrow> TapState \<Rightarrow> TapState" where
  "kickoff_rest cfg env forceRefetch s =
     (let s1 = s\<lparr>inflightSeq := inflightSeq s + 1\<rparr>
      in case (if forceRefetch then None else cached env) of
           Some result \<Rightarrow>
             scheduleRefresh cfg env (now env)
               (transition env (Success (now env) None) (Some ''cache_hit'')
                  (emit (Publish result) s1))
         | None \<Rightarrow>
             (let s2 = transition env (nextRequestState (now env) (currentState s1))
                         (Some (if hasData (currentState s1)
                                then ''refresh_initiated'' else ''request_initiated''))
                         s1
              in emit (Fetch (abortController s2) (requestKey s2)) s2))"

text \<open>
  The statements of \<open>handleRequestKeyChange\<close> for a key that is not available:
  \<open>const params = this.getDestinationParams(dest); if (params) { const resets =
  this.getResetUpdates(params); if (resets.size > 0) this.publish(resets, dest); }
  state.currentState = { type: "idle", retryAt: null }; this.publishState(dest);\<close>
\<close>

definition resetToIdle :: "AsyncTapConfig \<Rightarrow> Env \<Rightarrow> TapState \<Rightarrow> TapState" where
  "resetToIdle cfg env s =
     (let s1 = (case destinationParams env of
                  None \<Rightarrow> s
                | Some p \<Rightarrow>
                    (let resets = getResetUpdates cfg p
                     in if length resets > 0 then emit (Publish resets) s else s))
      in publishState (s1\<lparr>currentState := Idle None\<rparr>))"

text \<open>
  The statements of \<open>kickoff\<close> that the sources give: abort the in-flight request (with
  a history entry), create the new \<open>AbortController\<close>, cancel the scheduled retry and
  clear the refresh timer.
\<close>

definition kickoff_begin :: "Env \<Rightarrow> TapState \<Rightarrow> TapState" where
  "kickoff_begin env s =
     (let s1 = abortInflight env ''concurrent_request_aborted'' s;
          s2 = s1\<lparr>abortController := Some (nextHandle s1), nextHandle := nextHandle s1 + 1\<rparr>;
          s3 = cancelRetry s2;
          s4 = clearRefreshTimer s3
      in s4)"

text \<open>
  \<open>kickoff(dest, forceRefetch)\<close> and \<open>handleRequestKeyChange(dest, oldKey, newKey)\<close>.
  \<open>handleRequestKeyChange\<close> is translated from the sources; it ends by calling
  \<open>kickoff\<close> when the new key is available. \<open>kickoff\<close> starts with the statements that
  the sources give, \<open>kickoff_begin\<close>.

  Modelled from the spec: what \<open>kickoff\<close> does after \<open>kickoff_begin\<close>, where the sources
  have \<open>... rest of kickoff logic ...\<close>. It resolves the key of the current parameters;
  a key that differs from \<open>requestKey\<close> is delegated to the key change; unresolved
  parameters (a \<open>null\<close> key) go to \<open>idle\<close> and start no fetch; otherwise
  \<open>kickoff_rest\<close> follows.
\<close>

function kickoff :: "AsyncTapConfig \<Rightarrow> Env \<Rightarrow> bool \<Rightarrow> TapState \<Rightarrow> TapState"
  and handleRequestKeyChange ::
    "AsyncTapConfig \<Rightarrow> Env \<Rightarrow> string option \<Rightarrow> string option \<Rightarrow> TapState \<Rightarrow> TapState"
where
  "kickoff cfg env forceRefetch s =
     (let s0 = kickoff_begin env s
      in if resolveKey cfg env \<noteq> requestKey s0
         then handleRequestKeyChange cfg env (requestKey s0) (resolveKey cfg env) s0
         else if resolveKey cfg env = None then resetToIdle cfg env s0
         else kickoff_rest cfg env forceRefetch s0)"
| "handleRequestKeyChange cfg env oldKey newKey s =
     (let s1 = clearRetryTimer s;
          s2 = clearRefreshTimer s1;
          s3 = abortInflight env ''request_key_changed_aborted'' s2;
          s4 = s3\<lparr>retryAttempt := 0\<rparr>;
          s5 = s4\<lparr>requestKey := newKey\<rparr>;
          s6 = addHistoryEntry env (with_retryAt (currentState s5) None)
                 (Some ''request_key_changed'') s5
      in if truthy newKey
         then kickoff cfg env False
                (addHistoryEntry env (Loading (now env) None) (Some ''request_initiated'') s6)
         else resetToIdle cfg env s6)"
  by pat_completeness auto

termination
proof (relation "measure (\<lambda>x. case x of
          Inl (cfg, env, forceRefetch, s) \<Rightarrow> (if resolveKey cfg env = requestKey s then 0 else 2)
        | Inr (cfg, env, oldKey, newKey, s) \<Rightarrow> (if newKey = resolveKey cfg env then 1 else 3))",
      goal_cases)
  case 1
  show ?case by simp
next
  case (2 cfg env forceRefetch s s0)
  have pub: "\<And>s. requestKey (publishState s) = requestKey s"
    by (simp add: publishState_def emit_def Let_def)
  have add: "\<And>st r s. requestKey (addHistoryEntry env st r s) = requestKey s"
    by (simp add: addHistoryEntry_def pub Let_def)
  have abort: "\<And>r s. requestKey (abortInflight env r s) = requestKey s"
    by (simp add: abortInflight_def add emit_def Let_def split: option.splits)
  have clear: "\<And>s. requestKey (clearRetryTimer s) = requestKey s"
      "\<And>s. requestKey (clearRefreshTimer s) = requestKey s"
    by (simp_all add: clearRetryTimer_def clearRefreshTimer_def emit_def split: option.splits)
  have "requestKey (kickoff_begin env s) = requestKey s"
    by (simp add: kickoff_begin_def cancelRetry_def clear abort Let_def)
  with 2 show ?case by simp
next
  case (3 cfg env oldKey newKey s s1 s2 s3 s4 s5 s6)
  have pub: "\<And>s. requestKey (publishState s) = requestKey s"
    by (simp add: publishState_def emit_def Let_def)
  have add: "\<And>st r s. requestKey (addHistoryEntry env st r s) = requestKey s"
    by (simp add: addHistoryEntry_def pub Let_def)
  from 3 show ?case by (simp add: add)
qed

text \<open>
  The state of \<open>handleRequestKeyChange\<close> when it reaches its branch on \<open>newKey\<close>: timers
  cleared, in-flight request aborted, \<open>retryAttempt\<close> reset, \<open>requestKey\<close> updated and
  the key change recorded.
\<close>

definition keyChanged :: "Env \<Rightarrow> string option \<Rightarrow> TapState \<Rightarrow> TapState" where
  "keyChanged env newKey s =
     (let s3 = abortInflight env ''request_key_changed_aborted''
                 (clearRefreshTimer (clearRetryTimer s));
          s5 = s3\<lparr>retryAttempt := 0, requestKey := newKey\<rparr>
      in addHistoryEntry env (with_retryAt (currentState s5) None)
           (Some ''request_key_changed'') s5)"

text \<open>\<open>executeRetry(dest, requestKey)\<close>, the callback of the retry timer.\<close>

definition executeRetry :: "AsyncTapConfig \<Rightarrow> Env \<Rightarrow> string \<Rightarrow> TapState \<Rightarrow> TapState" where
  "executeRetry cfg env key s =
     (if listenerCount s = 0
      then publishState (s\<lparr>retryTimer := None,
                           currentState := with_retryAt (currentState s) None\<rparr>)
      else
        let currentKey = resolveKey cfg env
        in if currentKey \<noteq> Some key
           then handleRequestKeyChange cfg env (Some key) currentKey s
           else kickoff cfg env True s)"

text \<open>
  Modelled from the spec: the callback of the refresh timer is not in the sources. Its
  execution preconditions are those of the retry timer as the specification lists them.
  Without listeners: clear the timer, set \<open>retryAt\<close> to \<open>null\<close>, publish, and record
  \<open>listener_unsubscribed\<close> unless the history already holds an entry with that reason;
  no kickoff. With listeners, a key that no longer is the key captured when the timer was
  armed is delegated to the key change; otherwise \<open>kickoff(dest, false)\<close>.
\<close>

definition executeRefresh :: "AsyncTapConfig \<Rightarrow> Env \<Rightarrow> string \<Rightarrow> TapState \<Rightarrow> TapState" where
  "executeRefresh cfg env key s =
     (if listenerCount s = 0
      then
        (let s1 = s\<lparr>refreshTimer := None\<rparr>
         in if list_ex (\<lambda>e. h_transitionReason e = Some ''listener_unsubscribed'')
                 (historyEntries s1)
            then publishState (s1\<lparr>currentState := with_retryAt (currentState s1) None\<rparr>)
            else transition env (with_retryAt (currentState s1) None)
                   (Some ''listener_unsubscribed'') s1)
      else
        let currentKey = resolveKey cfg env
        in if currentKey \<noteq> Some key
           then handleRequestKeyChange cfg env (Some key) currentKey s
           else kickoff cfg env False s)"

section \<open>The controller\<close>

text \<open>
  Modelled from the spec: \<open>reset(dest)\<close> is not in the sources. The controller table of
  the specification gives it: abort the in-flight request, cancel the timers, reset
  \<open>retryAttempt\<close> to 0, return to \<open>idle\<close> and clear the history (a new empty array).
\<close>

definition reset :: "TapState \<Rightarrow> TapState" where
  "reset s =
     (let s1 = (case abortController s of None \<Rightarrow> s
                | Some c \<Rightarrow> (emit (Abort c) s)\<lparr>abortController := None\<rparr>);
          s2 = cancelRetry s1;
          s3 = s2\<lparr>retryAttempt := 0, history := nextAddr s2,
                  arrays := (arrays s2)(nextAddr s2 := \<lparr>elems = [], frozen = False\<rparr>),
                  nextAddr := nextAddr s2 + 1, currentState := Idle None\<rparr>
      in publishState s3)"

text \<open>
  The four methods of the object that \<open>createController(dest)\<close> returns. The optional
  argument \<open>forceRefetch\<close> is an option; \<open>forceRefetch === true\<close> is passed on.
\<close>

definition controller_retry ::
  "AsyncTapConfig \<Rightarrow> Env \<Rightarrow> bool option \<Rightarrow> TapState \<Rightarrow> TapState" where
  "controller_retry cfg env forceRefetch s =
     (let s1 = (case abortController s of None \<Rightarrow> s
                | Some c \<Rightarrow> (emit (Abort c) s)\<lparr>abortController := None\<rparr>);
          s2 = cancelRetry s1;
          s3 = s2\<lparr>retryAttempt := retryAttempt s2 + 1\<rparr>
      in kickoff cfg env (forceRefetch = Some True) s3)"

definition controller_refresh ::
  "AsyncTapConfig \<Rightarrow> Env \<Rightarrow> bool option \<Rightarrow> TapState \<Rightarrow> TapState" where
  "controller_refresh cfg env forceRefetch s =
     (if type_of (currentState s) = ''success'' \<or>
         type_of (currentState s) = ''stale-while-revalidate'' \<or>
         type_of (currentState s) = ''stale-with-error''
      then kickoff cfg env (forceRefetch = Some True) s
      else kickoff cfg env (forceRefetch = Some True) s)"

datatype call = Retry "bool option" | Refresh "bool option" | Reset | CancelRetry

text \<open>
  A call of a method of a controller object: the closure object runs the method above,
  the object of \<open>createNoOpController()\<close> runs an empty function.
\<close>

fun invoke ::
  "AsyncTapConfig \<Rightarrow> Env \<Rightarrow> AsyncTapController \<Rightarrow> call \<Rightarrow> TapState \<Rightarrow> TapState" where
  "invoke cfg env NoOpController c s = s"
| "invoke cfg env LiveController (Retry forceRefetch) s = controller_retry cfg env forceRefetch s"
| "invoke cfg env LiveController (Refresh forceRefetch) s =
     controller_refresh cfg env forceRefetch s"
| "invoke cfg env LiveController Reset s = reset s"
| "invoke cfg env LiveController CancelRetry s = cancelRetry s"

text \<open>\<open>publishController(dest)\<close>.\<close>

definition publishController :: "AsyncTapConfig \<Rightarrow> TapState \<Rightarrow> TapState" where
  "publishController cfg s =
     (if controllerGrip cfg = None \<or> \<not> attached cfg then s
      else
        let c = (case controller s of None \<Rightarrow> createNoOpController | Some c \<Rightarrow> c)
        in emit (PublishController c) s)"

section \<open>Listener tracking\<close>

definition isOutputGrip :: "AsyncTapConfig \<Rightarrow> grip \<Rightarrow> bool" where
  "isOutputGrip cfg g \<longleftrightarrow> g \<in> set (provides cfg)"

text \<open>
  Modelled from the spec: \<open>incrementListenerCount\<close> and \<open>decrementListenerCount\<close> are
  not in the sources; they maintain the count of listeners per request key.
\<close>

definition incrementListenerCount :: "string \<Rightarrow> TapState \<Rightarrow> TapState" where
  "incrementListenerCount key s =
     s\<lparr>listenerCounts := (listenerCounts s)(key := listenerCounts s key + 1)\<rparr>"

definition decrementListenerCount :: "string \<Rightarrow> TapState \<Rightarrow> TapState" where
  "decrementListenerCount key s =
     s\<lparr>listenerCounts := (listenerCounts s)(key := listenerCounts s key - 1)\<rparr>"

text \<open>
  \<open>onConnect(dest, grip)\<close>; the sources elide the connection logic that the tap had
  before (\<open>... existing connection logic ...\<close>), here and in \<open>onDisconnect\<close>.
\<close>

definition onConnect :: "AsyncTapConfig \<Rightarrow> Env \<Rightarrow> grip \<Rightarrow> TapState \<Rightarrow> TapState" where
  "onConnect cfg env g s =
     (let s1 = (if isOutputGrip cfg g
                then
                  (let s' = s\<lparr>listenerCount := listenerCount s + 1\<rparr>
                   in case destinationParams env of
                        None \<Rightarrow> s'
                      | Some p \<Rightarrow>
                          (case getRequestKey cfg p of
                             None \<Rightarrow> s'
                           | Some key \<Rightarrow>
                               if truthy (Some key)
                               then incrementListenerCount key
                                      (s'\<lparr>destinationRequestKey := Some key\<rparr>)
                               else s'))
                else s);
          s2 = (if controllerGrip cfg \<noteq> None \<and> controller s1 = None
                then publishController cfg (s1\<lparr>controller := Some createController\<rparr>)
                else s1)
      in publishState s2)"

text \<open>\<open>onDisconnect(dest, grip)\<close>.\<close>

definition onDisconnect :: "AsyncTapConfig \<Rightarrow> grip \<Rightarrow> TapState \<Rightarrow> TapState" where
  "onDisconnect cfg g s =
     (let s3 =
        (if isOutputGrip cfg g
         then
           (let s' = s\<lparr>listenerCount := max 0 (listenerCount s - 1)\<rparr>;
                s1 = (case destinationRequestKey s' of
                        None \<Rightarrow> s'
                      | Some key \<Rightarrow>
                          if truthy (Some key)
                          then
                            (let d = decrementListenerCount key s'
                             in if listenerCount d = 0
                                then
                                  (let c = clearRefreshTimer (cancelRetry d)
                                   in c\<lparr>currentState := with_retryAt (currentState c) None\<rparr>)
                                else d)
                          else s')
            in if listenerCount s1 = 0 \<and> controllerGrip cfg \<noteq> None
               then publishController cfg (s1\<lparr>controller := None\<rparr>)
               else s1)
         else s)
      in publishState s3)"

section \<open>Sequences of events\<close>

text \<open>
  The addresses of the history arrays of the snapshots published so far: the only
  arrays of the store that a consumer holds a reference to.
\<close>

fun publishedHistories :: "effect list \<Rightarrow> addr list" where
  "publishedHistories [] = []"
| "publishedHistories (PublishState snap # es) = a_history snap # publishedHistories es"
| "publishedHistories (e # es) = publishedHistories es"

text \<open>
  The events on a destination: the graph runtime connects and disconnects grips and
  nudges the tap (\<open>produce\<close>, which enters \<open>kickoff\<close>), the retry timer or the refresh
  timer fires, a consumer calls a method of a controller object, a failed request
  schedules its retry, and a consumer tries to write to a history array that it was
  handed in a snapshot.
\<close>

datatype event =
    Connect grip
  | Disconnect grip
  | Produce
  | RetryTimerFires string
  | RefreshTimerFires string
  | ControllerCall AsyncTapController call
  | RetryScheduled
  | ConsumerPush addr StateHistoryEntry
  | ConsumerShift addr
  | ConsumerAssign addr nat StateHistoryEntry

definition consumerWrite :: "addr \<Rightarrow> (harray \<Rightarrow> harray) \<Rightarrow> TapState \<Rightarrow> TapState" where
  "consumerWrite a f s =
     (if a \<in> set (publishedHistories (trace s))
      then s\<lparr>arrays := (arrays s)(a := f (arrays s a))\<rparr> else s)"

fun step :: "AsyncTapConfig \<Rightarrow> Env \<times> event \<Rightarrow> TapState \<Rightarrow> TapState" where
  "step cfg (env, Connect g) s = onConnect cfg env g s"
| "step cfg (env, Disconnect g) s = onDisconnect cfg g s"
| "step cfg (env, Produce) s = kickoff cfg env False s"
| "step cfg (env, RetryTimerFires key) s = executeRetry cfg env key s"
| "step cfg (env, RefreshTimerFires key) s = executeRefresh cfg env key s"
| "step cfg (env, ControllerCall c m) s = invoke cfg env c m s"
| "step cfg (env, RetryScheduled) s = scheduleRetry cfg env s"
| "step cfg (env, ConsumerPush a e) s = consumerWrite a (\<lambda>h. array_push h e) s"
| "step cfg (env, ConsumerShift a) s = consumerWrite a array_shift s"
| "step cfg (env, ConsumerAssign a i e) s = consumerWrite a (\<lambda>h. array_assign h i e) s"

fun run :: "AsyncTapConfig \<Rightarrow> (Env \<times> event) list \<Rightarrow> TapState \<Rightarrow> TapState" where
  "run cfg [] s = s"
| "run cfg (x # xs) s = run cfg xs (step cfg x s)"

text \<open>The effects of a trace, by kind.\<close>

fun fetches :: "effect list \<Rightarrow> (handle option \<times> string option) list" where
  "fetches [] = []"
| "fetches (Fetch c k # es) = (c, k) # fetches es"
| "fetches (e # es) = fetches es"

fun timersArmed :: "effect list \<Rightarrow> (handle \<times> number) list" where
  "timersArmed [] = []"
| "timersArmed (SetTimeout h t # es) = (h, t) # timersArmed es"
| "timersArmed (e # es) = timersArmed es"

fun publishedOutputs :: "effect list \<Rightarrow> updates" where
  "publishedOutputs [] = []"
| "publishedOutputs (Publish u # es) = u @ publishedOutputs es"
| "publishedOutputs (e # es) = publishedOutputs es"

fun publishedControllers :: "effect list \<Rightarrow> AsyncTapController list" where
  "publishedControllers [] = []"
| "publishedControllers (PublishController c # es) = c # publishedControllers es"
| "publishedControllers (e # es) = publishedControllers es"

fun publishedStates :: "effect list \<Rightarrow> AsyncRequestState list" where
  "publishedStates [] = []"
| "publishedStates (PublishState a # es) = a # publishedStates es"
| "publishedStates (e # es) = publishedStates es"

section \<open>Specification predicates\<close>

text \<open>
  The last \<open>n\<close> elements of a list: what a ring buffer of capacity \<open>n\<close> holds after the
  elements were pushed in this order, each push beyond the capacity evicting the oldest
  element.
\<close>

definition keepLast :: "nat \<Rightarrow> 'a list \<Rightarrow> 'a list" where
  "keepLast n xs = drop (length xs - n) xs"

text \<open>
  The store is well formed: the internal history buffer is an allocated array that is
  not frozen, and every published history array is allocated, frozen and not the
  internal buffer.
\<close>

definition store_ok :: "TapState \<Rightarrow> bool" where
  "store_ok s \<longleftrightarrow>
     history s < nextAddr s \<and> \<not> frozen (arrays s (history s)) \<and>
     list_all (\<lambda>a. a < nextAddr s \<and> a \<noteq> history s \<and> frozen (arrays s a))
       (publishedHistories (trace s))"

text \<open>
  The store is well formed and the history buffer holds no more than \<open>historySize\<close>
  entries.
\<close>

definition history_ok :: "TapState \<Rightarrow> bool" where
  "history_ok s \<longleftrightarrow> store_ok s \<and> length (historyEntries s) \<le> historySize s"

text \<open>
  From \<open>s\<close> to \<open>s'\<close> the store stays well formed, allocation only moves forward, and
  every array of \<open>s\<close> other than its internal buffer is left as it was.
\<close>

definition evolves :: "TapState \<Rightarrow> TapState \<Rightarrow> bool" where
  "evolves s s' \<longleftrightarrow>
     store_ok s' \<and> nextAddr s \<le> nextAddr s' \<and>
     (history s' = history s \<or> nextAddr s \<le> history s') \<and>
     (\<forall>a. a < nextAddr s \<and> a \<noteq> history s \<longrightarrow> arrays s' a = arrays s a)"

section \<open>The README's example tap\<close>

text \<open>
  The tap of the README: one output grip, a state grip and a controller grip, the
  request key is the user id of the destination parameters, five minutes of cache TTL,
  a refresh five seconds before expiry and the retry options of the example.
\<close>

definition exampleConfig :: AsyncTapConfig where
  "exampleConfig =
     \<lparr>provides = [''UserData''], stateGrip = Some ''UserDataState'',
      controllerGrip = Some ''UserDataController'', attached = True,
      getRequestKey = (\<lambda>p. case p of [] \<Rightarrow> None | userId # _ \<Rightarrow> Some userId),
      getResetUpdates = (\<lambda>p. [(''UserData'', ''default'')]),
      retry = \<lparr>maxRetries = Some (Finite 3), initialDelayMs = Some (Finite 1000),
               maxDelayMs = None, backoffMultiplier = Some (Finite 2),
               retryOnError = None\<rparr>,
      cacheTtlMs = 300000, refreshBeforeExpiryMs = Some 5000\<rparr>"

text \<open>An entry at time \<open>t\<close> with the user id \<open>u\<close> in the parameters and no fresh cache entry.\<close>

definition exampleEnv :: "timestamp \<Rightarrow> string \<Rightarrow> Env" where
  "exampleEnv t u = \<lparr>now = t, destinationParams = Some [u], cached = None\<rparr>"

text \<open>An entry at time \<open>t\<close> whose parameters do not resolve to a request key.\<close>

definition exampleEnvNoKey :: "timestamp \<Rightarrow> Env" where
  "exampleEnvNoKey t = \<lparr>now = t, destinationParams = Some [], cached = None\<rparr>"

text \<open>
  States of a destination of that tap with request key \<open>A\<close>: data retrieved at time 0
  with one listener; a request in flight with both timers armed; a failed request whose
  retry is scheduled for time 150, with and without a listener.
\<close>

definition stateWithData :: TapState where
  "stateWithData =
     (initialDestState 10)\<lparr>currentState := Success 0 None, requestKey := Some ''A'',
        listenerCount := 1, controller := Some LiveController\<rparr>"

definition stateInFlight :: TapState where
  "stateInFlight =
     (initialDestState 10)\<lparr>currentState := Loading 0 None, requestKey := Some ''A'',
        listenerCount := 1, retryAttempt := 2, retryTimer := Some 2, refreshTimer := Some 3,
        controller := Some LiveController, abortController := Some 1, nextHandle := 4\<rparr>"

definition stateFailed :: "int \<Rightarrow> TapState" where
  "stateFailed listeners =
     (initialDestState 10)\<lparr>currentState := Error ''HTTP 500'' 50 (Some (Finite 150)),
        requestKey := Some ''A'', listenerCount := listeners, retryAttempt := 2,
        retryTimer := Some 1, nextHandle := 2\<rparr>"

text \<open>
  Data retrieved at time 0 whose refresh is scheduled for time 295000 (the TTL of five
  minutes less five seconds), with and without a listener.
\<close>

definition stateCached :: "int \<Rightarrow> TapState" where
  "stateCached listeners =
     (initialDestState 10)\<lparr>currentState := Success 0 (Some (Finite 295000)),
        requestKey := Some ''A'', listenerCount := listeners, refreshTimer := Some 1,
        nextHandle := 2\<rparr>"

section \<open>Facts about the operations\<close>

declare kickoff.simps [simp del] handleRequestKeyChange.simps [simp del]

subsection \<open>Numbers that are computed exactly\<close>

lemma roundHalfEven_of_int [simp]: "roundHalfEven (of_int k) = k"
  by (simp add: roundHalfEven_def)

lemma ilog2_lower:
  assumes "0 < q"
  shows "power_int 2 (ilog2 q) \<le> q"
proof -
  obtain a b where ab: "quotient_of q = (a, b)" by (cases "quotient_of q")
  have b: "0 < b" using ab by (rule quotient_of_denom_pos)
  have q: "q = of_int a / of_int b" using ab by (rule quotient_of_div)
  have a: "0 < a"
    using assms b unfolding q by (simp add: zero_less_divide_iff)
  let ?d = "bitlen a - bitlen b"
  have la: "(2::int) ^ nat (bitlen a - 1) \<le> a" using bitlen_bounds [OF a] by simp
  have lb: "b < (2::int) ^ nat (bitlen b)" using bitlen_bounds [OF b] by simp
  have la1: "1 \<le> bitlen a" using a by (simp add: bitlen_alt_def)
  have lb0: "0 \<le> bitlen b" by (rule bitlen_nonneg)
  have "(of_int ((2::int) ^ nat (bitlen a - 1)) :: rat) \<le> of_int a"
    using la by (simp only: of_int_le_iff)
  then have A: "power_int (2::rat) (bitlen a - 1) \<le> of_int a"
    using la1 by (simp add: power_int_def)
  have "(of_int b :: rat) < of_int ((2::int) ^ nat (bitlen b))"
    using lb by (simp only: of_int_less_iff)
  then have B: "(of_int b :: rat) < power_int 2 (bitlen b)"
    using lb0 by (simp add: power_int_def)
  have "power_int (2::rat) (?d - 1) = power_int 2 (bitlen a - 1) / power_int 2 (bitlen b)"
    using power_int_diff [of "2::rat" "bitlen a - 1" "bitlen b"] by (simp add: algebra_simps)
  also have "\<dots> \<le> of_int a / power_int 2 (bitlen b)"
    using A by (simp add: divide_right_mono)
  also have "\<dots> \<le> of_int a / of_int b"
    using B a b by (simp add: frac_le)
  finally have low: "power_int (2::rat) (?d - 1) \<le> q" unfolding q .
  show ?thesis
    using low by (simp add: ilog2_def ab Let_def)
qed

text \<open>An integer of magnitude up to \<open>2 ^ 53\<close> is a double: rounding leaves it as it is.\<close>

lemma roundToDouble_of_int:
  assumes "\<bar>n\<bar> \<le> 2 ^ 53"
  shows "roundToDouble (of_int n) = Finite (of_int n)"
proof (cases "n = 0")
  case True
  then show ?thesis by (simp add: roundToDouble_def)
next
  case False
  let ?q = "of_int n :: rat"
  let ?a = "\<bar>?q\<bar>"
  let ?e = "ilog2 ?a"
  let ?p = "max (?e - 52) (- 1074)"
  have apos: "0 < ?a" using False by simp
  have ale: "?a \<le> 2 ^ 53"
  proof -
    have "(of_int \<bar>n\<bar> :: rat) \<le> of_int (2 ^ 53)"
      using assms by (simp only: of_int_le_iff)
    then show ?thesis by simp
  qed
  have low: "power_int 2 ?e \<le> ?a" using apos by (rule ilog2_lower)
  have e53: "?e \<le> 53"
  proof (rule ccontr)
    assume "\<not> ?e \<le> 53"
    then have "54 \<le> ?e" by simp
    then have "power_int (2::rat) 54 \<le> power_int 2 ?e"
      by (intro power_int_increasing) simp_all
    then have "(2::rat) ^ 54 \<le> 2 ^ 53" using low ale by simp
    then show False by simp
  qed
  have ex: "\<exists>k. ?a / power_int 2 ?p = of_int k"
  proof (cases "?p \<le> 0")
    case True
    then have "power_int (2::rat) ?p = 1 / 2 ^ nat (- ?p)"
      by (cases "?p = 0") (simp_all add: power_int_def inverse_eq_divide power_one_over)
    then have "?a / power_int 2 ?p = of_int (\<bar>n\<bar> * 2 ^ nat (- ?p))"
      by simp
    then show ?thesis by blast
  next
    case False
    then have p1: "?p = 1" and e: "?e = 53" using e53 by auto
    have "(2::rat) ^ 53 \<le> ?a" using low e by simp
    then have "?a = 2 ^ 53" using ale by simp
    then have "?a / power_int 2 ?p = of_int (2 ^ 52)"
      using p1 by simp
    then show ?thesis by blast
  qed
  then obtain k where k: "?a / power_int 2 ?p = of_int k" by blast
  have pw: "power_int (2::rat) ?p \<noteq> 0" by simp
  have r: "roundHalfEven (?a / power_int 2 ?p) = k"
    by (simp only: k roundHalfEven_of_int)
  have "?a = of_int k * power_int 2 ?p"
    using nonzero_divide_eq_eq [OF pw, THEN iffD1, OF k] .
  then have v: "of_int (roundHalfEven (?a / power_int 2 ?p)) * power_int 2 ?p = ?a"
    by (simp only: r)
  have small: "\<not> power_int (2::rat) 1024 \<le> ?a"
  proof
    assume "power_int (2::rat) 1024 \<le> ?a"
    then have "(2::rat) ^ 1024 \<le> 2 ^ 53" using ale by simp
    then show False by simp
  qed
  have "roundToDouble ?q = Finite (if 0 < ?q then ?a else - ?a)"
    using False small unfolding roundToDouble_def Let_def v by simp
  also have "(if 0 < ?q then ?a else - ?a) = ?q" by simp
  finally show ?thesis .
qed

lemma number_mul_int:
  "\<bar>a * b\<bar> \<le> 2 ^ 53 \<Longrightarrow>
   number_mul (Finite (of_int a)) (Finite (of_int b)) = Finite (of_int (a * b))"
  using roundToDouble_of_int [of "a * b"] by simp

lemma number_add_int:
  "\<bar>a + b\<bar> \<le> 2 ^ 53 \<Longrightarrow>
   number_add (Finite (of_int a)) (Finite (of_int b)) = Finite (of_int (a + b))"
  using roundToDouble_of_int [of "a + b"] by simp

lemma number_pow_int:
  "\<bar>b ^ n\<bar> \<le> 2 ^ 53 \<Longrightarrow> number_pow (Finite (of_int b)) n = Finite (of_int (b ^ n))"
  using roundToDouble_of_int [of "b ^ n"] by (simp add: number_pow_def)

lemma number_min_int:
  "number_min (Finite (of_int a)) (Finite (of_int b)) = Finite (of_int (min a b))"
  by (simp add: number_min_def min_def)

lemma number_min_commute: "number_min a b = number_min b a"
  by (cases a; cases b) (auto simp: number_min_def)

lemma number_ge_int:
  "number_ge (Finite (of_nat k)) (Finite (of_int m)) \<longleftrightarrow> m \<le> int k"
proof -
  have "(of_int m \<le> (of_nat k :: rat)) = (of_int m \<le> (of_int (int k) :: rat))" by simp
  also have "\<dots> = (m \<le> int k)" by (simp only: of_int_le_iff)
  finally show ?thesis by (simp add: number_ge_def not_less)
qed

subsection \<open>Traces and snapshots\<close>

lemma frozen_copy_simps [simp]:
  "elems (frozen_copy a) = elems a" "frozen (frozen_copy a) = True"
  by (simp_all add: frozen_copy_def)

lemma fetches_append [simp]: "fetches (xs @ ys) = fetches xs @ fetches ys"
  by (induction xs rule: fetches.induct) simp_all

lemma timersArmed_append [simp]: "timersArmed (xs @ ys) = timersArmed xs @ timersArmed ys"
  by (induction xs rule: timersArmed.induct) simp_all

lemma publishedOutputs_append [simp]:
  "publishedOutputs (xs @ ys) = publishedOutputs xs @ publishedOutputs ys"
  by (induction xs rule: publishedOutputs.induct) simp_all

lemma publishedControllers_append [simp]:
  "publishedControllers (xs @ ys) = publishedControllers xs @ publishedControllers ys"
  by (induction xs rule: publishedControllers.induct) simp_all

lemma publishedStates_append [simp]:
  "publishedStates (xs @ ys) = publishedStates xs @ publishedStates ys"
  by (induction xs rule: publishedStates.induct) simp_all

lemma publishedHistories_append [simp]:
  "publishedHistories (xs @ ys) = publishedHistories xs @ publishedHistories ys"
  by (induction xs rule: publishedHistories.induct) simp_all

lemma snapshot_simps [simp]:
  "a_state (snapshot s) = currentState s"
  "a_requestKey (snapshot s) = requestKey s"
  "a_hasListeners (snapshot s) = (0 < listenerCount s)"
  "a_history (snapshot s) = nextAddr s"
  by (simp_all add: snapshot_def)

subsection \<open>What the operations change\<close>

lemma publishState_fields [simp]:
  "currentState (publishState s) = currentState s"
  "requestKey (publishState s) = requestKey s"
  "listenerCount (publishState s) = listenerCount s"
  "retryAttempt (publishState s) = retryAttempt s"
  "retryTimer (publishState s) = retryTimer s"
  "refreshTimer (publishState s) = refreshTimer s"
  "history (publishState s) = history s"
  "historySize (publishState s) = historySize s"
  "controller (publishState s) = controller s"
  "abortController (publishState s) = abortController s"
  "inflightSeq (publishState s) = inflightSeq s"
  "destinationRequestKey (publishState s) = destinationRequestKey s"
  "listenerCounts (publishState s) = listenerCounts s"
  "nextHandle (publishState s) = nextHandle s"
  "nextAddr (publishState s) = nextAddr s + 1"
  "trace (publishState s) = trace s @ [PublishState (snapshot s)]"
  "arrays (publishState s) = (arrays s)(nextAddr s := frozen_copy (arrays s (history s)))"
  by (simp_all add: publishState_def emit_def Let_def snapshot_def)

lemma emit_fields [simp]:
  "currentState (emit e s) = currentState s"
  "requestKey (emit e s) = requestKey s"
  "listenerCount (emit e s) = listenerCount s"
  "retryAttempt (emit e s) = retryAttempt s"
  "retryTimer (emit e s) = retryTimer s"
  "refreshTimer (emit e s) = refreshTimer s"
  "history (emit e s) = history s"
  "historySize (emit e s) = historySize s"
  "controller (emit e s) = controller s"
  "abortController (emit e s) = abortController s"
  "inflightSeq (emit e s) = inflightSeq s"
  "destinationRequestKey (emit e s) = destinationRequestKey s"
  "listenerCounts (emit e s) = listenerCounts s"
  "nextHandle (emit e s) = nextHandle s"
  "nextAddr (emit e s) = nextAddr s"
  "trace (emit e s) = trace s @ [e]"
  "arrays (emit e s) = arrays s"
  by (simp_all add: emit_def)

lemma addHistoryEntry_fields [simp]:
  "currentState (addHistoryEntry env st r s) = (if historySize s = 0 then currentState s else st)"
  "requestKey (addHistoryEntry env st r s) = requestKey s"
  "listenerCount (addHistoryEntry env st r s) = listenerCount s"
  "retryAttempt (addHistoryEntry env st r s) = retryAttempt s"
  "retryTimer (addHistoryEntry env st r s) = retryTimer s"
  "refreshTimer (addHistoryEntry env st r s) = refreshTimer s"
  "history (addHistoryEntry env st r s) = history s"
  "historySize (addHistoryEntry env st r s) = historySize s"
  "controller (addHistoryEntry env st r s) = controller s"
  "abortController (addHistoryEntry env st r s) = abortController s"
  "inflightSeq (addHistoryEntry env st r s) = inflightSeq s"
  "destinationRequestKey (addHistoryEntry env st r s) = destinationRequestKey s"
  "listenerCounts (addHistoryEntry env st r s) = listenerCounts s"
  "nextHandle (addHistoryEntry env st r s) = nextHandle s"
  by (simp_all add: addHistoryEntry_def Let_def)

lemma addHistoryEntry_trace:
  "trace (addHistoryEntry env st r s) =
     (if historySize s = 0 then trace s
      else trace s @ [PublishState \<lparr>a_state = st, a_requestKey = requestKey s,
                       a_hasListeners = (listenerCount s > 0), a_history = nextAddr s\<rparr>])"
  by (simp add: addHistoryEntry_def Let_def snapshot_def)

lemma addHistoryEntry_effects [simp]:
  "fetches (trace (addHistoryEntry env st r s)) = fetches (trace s)"
  "timersArmed (trace (addHistoryEntry env st r s)) = timersArmed (trace s)"
  "publishedOutputs (trace (addHistoryEntry env st r s)) = publishedOutputs (trace s)"
  "publishedControllers (trace (addHistoryEntry env st r s)) = publishedControllers (trace s)"
  by (simp_all add: addHistoryEntry_trace)

lemma executeRetry_no_listeners:
  "listenerCount s = 0 \<Longrightarrow>
     executeRetry cfg env key s =
       publishState (s\<lparr>retryTimer := None, currentState := with_retryAt (currentState s) None\<rparr>)"
  by (simp add: executeRetry_def)

lemma retryAt_with_retryAt [simp]: "retryAt (with_retryAt st r) = r"
  by (cases st) simp_all

lemma type_of_with_retryAt [simp]: "type_of (with_retryAt st r) = type_of st"
  by (cases st) simp_all

lemma clearRetryTimer_fields [simp]:
  "currentState (clearRetryTimer s) = currentState s"
  "requestKey (clearRetryTimer s) = requestKey s"
  "listenerCount (clearRetryTimer s) = listenerCount s"
  "retryAttempt (clearRetryTimer s) = retryAttempt s"
  "retryTimer (clearRetryTimer s) = None"
  "refreshTimer (clearRetryTimer s) = refreshTimer s"
  "history (clearRetryTimer s) = history s"
  "historySize (clearRetryTimer s) = historySize s"
  "controller (clearRetryTimer s) = controller s"
  "abortController (clearRetryTimer s) = abortController s"
  "inflightSeq (clearRetryTimer s) = inflightSeq s"
  "destinationRequestKey (clearRetryTimer s) = destinationRequestKey s"
  "listenerCounts (clearRetryTimer s) = listenerCounts s"
  "nextHandle (clearRetryTimer s) = nextHandle s"
  "nextAddr (clearRetryTimer s) = nextAddr s"
  "arrays (clearRetryTimer s) = arrays s"
  by (simp_all add: clearRetryTimer_def split: option.splits)

lemma clearRetryTimer_trace:
  "trace (clearRetryTimer s) =
     trace s @ (case retryTimer s of None \<Rightarrow> [] | Some t \<Rightarrow> [ClearTimeout t])"
  by (simp add: clearRetryTimer_def split: option.splits)

lemma clearRefreshTimer_fields [simp]:
  "currentState (clearRefreshTimer s) = currentState s"
  "requestKey (clearRefreshTimer s) = requestKey s"
  "listenerCount (clearRefreshTimer s) = listenerCount s"
  "retryAttempt (clearRefreshTimer s) = retryAttempt s"
  "retryTimer (clearRefreshTimer s) = retryTimer s"
  "refreshTimer (clearRefreshTimer s) = None"
  "history (clearRefreshTimer s) = history s"
  "historySize (clearRefreshTimer s) = historySize s"
  "controller (clearRefreshTimer s) = controller s"
  "abortController (clearRefreshTimer s) = abortController s"
  "inflightSeq (clearRefreshTimer s) = inflightSeq s"
  "destinationRequestKey (clearRefreshTimer s) = destinationRequestKey s"
  "listenerCounts (clearRefreshTimer s) = listenerCounts s"
  "nextHandle (clearRefreshTimer s) = nextHandle s"
  "nextAddr (clearRefreshTimer s) = nextAddr s"
  "arrays (clearRefreshTimer s) = arrays s"
  by (simp_all add: clearRefreshTimer_def split: option.splits)

lemma clearRefreshTimer_trace:
  "trace (clearRefreshTimer s) =
     trace s @ (case refreshTimer s of None \<Rightarrow> [] | Some t \<Rightarrow> [ClearTimeout t])"
  by (simp add: clearRefreshTimer_def split: option.splits)

lemma abortInflight_fields [simp]:
  "currentState (abortInflight env r s) = currentState s"
  "requestKey (abortInflight env r s) = requestKey s"
  "listenerCount (abortInflight env r s) = listenerCount s"
  "retryAttempt (abortInflight env r s) = retryAttempt s"
  "retryTimer (abortInflight env r s) = retryTimer s"
  "refreshTimer (abortInflight env r s) = refreshTimer s"
  "history (abortInflight env r s) = history s"
  "historySize (abortInflight env r s) = historySize s"
  "controller (abortInflight env r s) = controller s"
  "abortController (abortInflight env r s) = None"
  "inflightSeq (abortInflight env r s) = inflightSeq s"
  "destinationRequestKey (abortInflight env r s) = destinationRequestKey s"
  "listenerCounts (abortInflight env r s) = listenerCounts s"
  "nextHandle (abortInflight env r s) = nextHandle s"
  by (simp_all add: abortInflight_def Let_def split: option.splits)

lemma abortInflight_effects [simp]:
  "fetches (trace (abortInflight env r s)) = fetches (trace s)"
  "timersArmed (trace (abortInflight env r s)) = timersArmed (trace s)"
  "publishedOutputs (trace (abortInflight env r s)) = publishedOutputs (trace s)"
  "publishedControllers (trace (abortInflight env r s)) = publishedControllers (trace s)"
  by (simp_all add: abortInflight_def Let_def split: option.splits)

lemma clearTimer_effects [simp]:
  "fetches (trace (clearRetryTimer s)) = fetches (trace s)"
  "timersArmed (trace (clearRetryTimer s)) = timersArmed (trace s)"
  "publishedOutputs (trace (clearRetryTimer s)) = publishedOutputs (trace s)"
  "publishedControllers (trace (clearRetryTimer s)) = publishedControllers (trace s)"
  "publishedStates (trace (clearRetryTimer s)) = publishedStates (trace s)"
  "fetches (trace (clearRefreshTimer s)) = fetches (trace s)"
  "timersArmed (trace (clearRefreshTimer s)) = timersArmed (trace s)"
  "publishedOutputs (trace (clearRefreshTimer s)) = publishedOutputs (trace s)"
  "publishedControllers (trace (clearRefreshTimer s)) = publishedControllers (trace s)"
  "publishedStates (trace (clearRefreshTimer s)) = publishedStates (trace s)"
  by (simp_all add: clearRetryTimer_trace clearRefreshTimer_trace split: option.splits)

lemma resetToIdle_fields [simp]:
  "currentState (resetToIdle cfg env s) = Idle None"
  "requestKey (resetToIdle cfg env s) = requestKey s"
  "listenerCount (resetToIdle cfg env s) = listenerCount s"
  "retryAttempt (resetToIdle cfg env s) = retryAttempt s"
  "retryTimer (resetToIdle cfg env s) = retryTimer s"
  "refreshTimer (resetToIdle cfg env s) = refreshTimer s"
  "history (resetToIdle cfg env s) = history s"
  "historySize (resetToIdle cfg env s) = historySize s"
  "controller (resetToIdle cfg env s) = controller s"
  "abortController (resetToIdle cfg env s) = abortController s"
  by (simp_all add: resetToIdle_def Let_def split: option.splits)

lemma resetToIdle_effects [simp]:
  "fetches (trace (resetToIdle cfg env s)) = fetches (trace s)"
  "timersArmed (trace (resetToIdle cfg env s)) = timersArmed (trace s)"
  "publishedOutputs (trace (resetToIdle cfg env s)) =
     publishedOutputs (trace s) @
       (case destinationParams env of None \<Rightarrow> [] | Some p \<Rightarrow> getResetUpdates cfg p)"
  "publishedControllers (trace (resetToIdle cfg env s)) = publishedControllers (trace s)"
  by (simp_all add: resetToIdle_def Let_def split: option.splits)

subsection \<open>The runner for an unchanged and for a changed key\<close>

lemma handleRequestKeyChange_eq:
  "handleRequestKeyChange cfg env oldKey newKey s =
     (if truthy newKey
      then kickoff cfg env False
             (addHistoryEntry env (Loading (now env) None) (Some ''request_initiated'')
                (keyChanged env newKey s))
      else resetToIdle cfg env (keyChanged env newKey s))"
  by (simp add: handleRequestKeyChange.simps keyChanged_def Let_def)

lemma keyChanged_fields [simp]:
  "currentState (keyChanged env k s) =
     (if historySize s = 0 then currentState s else with_retryAt (currentState s) None)"
  "requestKey (keyChanged env k s) = k"
  "listenerCount (keyChanged env k s) = listenerCount s"
  "retryAttempt (keyChanged env k s) = 0"
  "retryTimer (keyChanged env k s) = None"
  "refreshTimer (keyChanged env k s) = None"
  "history (keyChanged env k s) = history s"
  "historySize (keyChanged env k s) = historySize s"
  "controller (keyChanged env k s) = controller s"
  "abortController (keyChanged env k s) = None"
  "nextHandle (keyChanged env k s) = nextHandle s"
  "fetches (trace (keyChanged env k s)) = fetches (trace s)"
  "timersArmed (trace (keyChanged env k s)) = timersArmed (trace s)"
  "publishedOutputs (trace (keyChanged env k s)) = publishedOutputs (trace s)"
  "publishedControllers (trace (keyChanged env k s)) = publishedControllers (trace s)"
  by (simp_all add: keyChanged_def Let_def)

lemma cancelRetry_fields [simp]:
  "currentState (cancelRetry s) = currentState s"
  "requestKey (cancelRetry s) = requestKey s"
  "listenerCount (cancelRetry s) = listenerCount s"
  "retryAttempt (cancelRetry s) = retryAttempt s"
  "retryTimer (cancelRetry s) = None"
  "refreshTimer (cancelRetry s) = None"
  "history (cancelRetry s) = history s"
  "historySize (cancelRetry s) = historySize s"
  "controller (cancelRetry s) = controller s"
  "abortController (cancelRetry s) = abortController s"
  "inflightSeq (cancelRetry s) = inflightSeq s"
  "destinationRequestKey (cancelRetry s) = destinationRequestKey s"
  "listenerCounts (cancelRetry s) = listenerCounts s"
  "nextHandle (cancelRetry s) = nextHandle s"
  "nextAddr (cancelRetry s) = nextAddr s"
  "arrays (cancelRetry s) = arrays s"
  "fetches (trace (cancelRetry s)) = fetches (trace s)"
  "timersArmed (trace (cancelRetry s)) = timersArmed (trace s)"
  "publishedOutputs (trace (cancelRetry s)) = publishedOutputs (trace s)"
  "publishedControllers (trace (cancelRetry s)) = publishedControllers (trace s)"
  "publishedStates (trace (cancelRetry s)) = publishedStates (trace s)"
  by (simp_all add: cancelRetry_def)

lemma transition_fields [simp]:
  "currentState (transition env st r s) = st"
  "requestKey (transition env st r s) = requestKey s"
  "listenerCount (transition env st r s) = listenerCount s"
  "retryAttempt (transition env st r s) = retryAttempt s"
  "retryTimer (transition env st r s) = retryTimer s"
  "refreshTimer (transition env st r s) = refreshTimer s"
  "history (transition env st r s) = history s"
  "historySize (transition env st r s) = historySize s"
  "controller (transition env st r s) = controller s"
  "abortController (transition env st r s) = abortController s"
  "inflightSeq (transition env st r s) = inflightSeq s"
  "destinationRequestKey (transition env st r s) = destinationRequestKey s"
  "listenerCounts (transition env st r s) = listenerCounts s"
  "nextHandle (transition env st r s) = nextHandle s"
  "fetches (trace (transition env st r s)) = fetches (trace s)"
  "timersArmed (trace (transition env st r s)) = timersArmed (trace s)"
  "publishedOutputs (trace (transition env st r s)) = publishedOutputs (trace s)"
  "publishedControllers (trace (transition env st r s)) = publishedControllers (trace s)"
  by (simp_all add: transition_def)

lemma scheduleRefresh_fields [simp]:
  "type_of (currentState (scheduleRefresh cfg env t s)) = type_of (currentState s)"
  "requestKey (scheduleRefresh cfg env t s) = requestKey s"
  "listenerCount (scheduleRefresh cfg env t s) = listenerCount s"
  "retryAttempt (scheduleRefresh cfg env t s) = retryAttempt s"
  "retryTimer (scheduleRefresh cfg env t s) = retryTimer s"
  "history (scheduleRefresh cfg env t s) = history s"
  "historySize (scheduleRefresh cfg env t s) = historySize s"
  "controller (scheduleRefresh cfg env t s) = controller s"
  "abortController (scheduleRefresh cfg env t s) = abortController s"
  "fetches (trace (scheduleRefresh cfg env t s)) = fetches (trace s)"
  "publishedOutputs (trace (scheduleRefresh cfg env t s)) = publishedOutputs (trace s)"
  "publishedControllers (trace (scheduleRefresh cfg env t s)) = publishedControllers (trace s)"
  by (simp_all add: scheduleRefresh_def split: option.splits)

lemma type_of_nextRequestState:
  "type_of (nextRequestState t st) =
     (if hasData st then ''stale-while-revalidate'' else ''loading'')"
  by (cases st) (simp_all add: hasData_def)

lemma kickoff_rest_fields [simp]:
  "requestKey (kickoff_rest cfg env f s) = requestKey s"
  "listenerCount (kickoff_rest cfg env f s) = listenerCount s"
  "retryAttempt (kickoff_rest cfg env f s) = retryAttempt s"
  "retryTimer (kickoff_rest cfg env f s) = retryTimer s"
  "history (kickoff_rest cfg env f s) = history s"
  "historySize (kickoff_rest cfg env f s) = historySize s"
  "controller (kickoff_rest cfg env f s) = controller s"
  "abortController (kickoff_rest cfg env f s) = abortController s"
  "publishedControllers (trace (kickoff_rest cfg env f s)) = publishedControllers (trace s)"
  by (simp_all add: kickoff_rest_def Let_def split: option.splits)

lemma kickoff_rest_type:
  "type_of (currentState (kickoff_rest cfg env f s)) =
     (if \<not> f \<and> cached env \<noteq> None then ''success''
      else if hasData (currentState s) then ''stale-while-revalidate'' else ''loading'')"
  by (auto simp: kickoff_rest_def Let_def type_of_nextRequestState split: option.splits)

lemma kickoff_rest_fetches:
  "fetches (trace (kickoff_rest cfg env f s)) =
     fetches (trace s) @
       (if \<not> f \<and> cached env \<noteq> None then [] else [(abortController s, requestKey s)])"
  by (auto simp: kickoff_rest_def Let_def split: option.splits)

lemma kickoff_begin_fields [simp]:
  "currentState (kickoff_begin env s) = currentState s"
  "requestKey (kickoff_begin env s) = requestKey s"
  "listenerCount (kickoff_begin env s) = listenerCount s"
  "retryAttempt (kickoff_begin env s) = retryAttempt s"
  "retryTimer (kickoff_begin env s) = None"
  "refreshTimer (kickoff_begin env s) = None"
  "history (kickoff_begin env s) = history s"
  "historySize (kickoff_begin env s) = historySize s"
  "controller (kickoff_begin env s) = controller s"
  "abortController (kickoff_begin env s) = Some (nextHandle s)"
  "nextHandle (kickoff_begin env s) = nextHandle s + 1"
  "fetches (trace (kickoff_begin env s)) = fetches (trace s)"
  "timersArmed (trace (kickoff_begin env s)) = timersArmed (trace s)"
  "publishedOutputs (trace (kickoff_begin env s)) = publishedOutputs (trace s)"
  "publishedControllers (trace (kickoff_begin env s)) = publishedControllers (trace s)"
  by (simp_all add: kickoff_begin_def Let_def)

lemma kickoff_same_key:
  "resolveKey cfg env = requestKey s \<Longrightarrow> requestKey s \<noteq> None \<Longrightarrow>
   kickoff cfg env f s = kickoff_rest cfg env f (kickoff_begin env s)"
  by (subst kickoff.simps) (auto simp: Let_def)

lemma kickoff_null_key:
  "resolveKey cfg env = requestKey s \<Longrightarrow> requestKey s = None \<Longrightarrow>
   kickoff cfg env f s = resetToIdle cfg env (kickoff_begin env s)"
  by (subst kickoff.simps) (simp add: Let_def)

lemma kickoff_changed_key:
  "resolveKey cfg env \<noteq> requestKey s \<Longrightarrow>
   kickoff cfg env f s =
     handleRequestKeyChange cfg env (requestKey s) (resolveKey cfg env) (kickoff_begin env s)"
  by (subst kickoff.simps) (simp add: Let_def)

lemma kickoff_same_key_retryAttempt:
  "resolveKey cfg env = requestKey s \<Longrightarrow> retryAttempt (kickoff cfg env f s) = retryAttempt s"
  by (cases "requestKey s = None") (simp_all add: kickoff_same_key kickoff_null_key)

lemma kickoff_same_key_type:
  "resolveKey cfg env = requestKey s \<Longrightarrow> requestKey s \<noteq> None \<Longrightarrow>
   type_of (currentState (kickoff cfg env f s)) =
     (if \<not> f \<and> cached env \<noteq> None then ''success''
      else if hasData (currentState s) then ''stale-while-revalidate'' else ''loading'')"
  by (simp add: kickoff_same_key kickoff_rest_type)

lemma kickoff_same_key_fetches:
  "resolveKey cfg env = requestKey s \<Longrightarrow> requestKey s \<noteq> None \<Longrightarrow>
   fetches (trace (kickoff cfg env f s)) =
     fetches (trace s) @
       (if \<not> f \<and> cached env \<noteq> None then [] else [(Some (nextHandle s), requestKey s)])"
  by (simp add: kickoff_same_key kickoff_rest_fetches)

lemma hasData_Loading [simp]: "\<not> hasData (Loading t r)"
  by (simp add: hasData_def)

lemma controller_retry_eq:
  "controller_retry cfg env f s =
     kickoff cfg env (f = Some True)
       ((cancelRetry (case abortController s of None \<Rightarrow> s
                      | Some c \<Rightarrow> (emit (Abort c) s)\<lparr>abortController := None\<rparr>))
          \<lparr>retryAttempt := retryAttempt s + 1\<rparr>)"
  by (simp add: controller_retry_def Let_def split: option.splits)

lemma controller_refresh_eq:
  "controller_refresh cfg env f s = kickoff cfg env (f = Some True) s"
  by (simp add: controller_refresh_def)

lemma executeRetry_listening:
  "listenerCount s \<noteq> 0 \<Longrightarrow>
   executeRetry cfg env key s =
     (if resolveKey cfg env \<noteq> Some key
      then handleRequestKeyChange cfg env (Some key) (resolveKey cfg env) s
      else kickoff cfg env True s)"
  by (simp add: executeRetry_def Let_def)

subsection \<open>The example tap\<close>

lemma exampleConfig_simps [simp]:
  "provides exampleConfig = [''UserData'']"
  "controllerGrip exampleConfig = Some ''UserDataController''"
  "attached exampleConfig = True"
  "resolveKey exampleConfig (exampleEnv t u) = Some u"
  "resolveKey exampleConfig (exampleEnvNoKey t) = None"
  "now (exampleEnv t u) = t"
  "cached (exampleEnv t u) = None"
  "destinationParams (exampleEnv t u) = Some [u]"
  "now (exampleEnvNoKey t) = t"
  "cached (exampleEnvNoKey t) = None"
  "destinationParams (exampleEnvNoKey t) = Some []"
  "getRequestKey exampleConfig [u] = Some u"
  "getRequestKey exampleConfig [] = None"
  "getResetUpdates exampleConfig p = [(''UserData'', ''default'')]"
  "cacheTtlMs exampleConfig = 300000"
  "refreshBeforeExpiryMs exampleConfig = Some 5000"
  "maxRetries (retry exampleConfig) = Some (Finite 3)"
  "initialDelayMs (retry exampleConfig) = Some (Finite 1000)"
  "maxDelayMs (retry exampleConfig) = None"
  "backoffMultiplier (retry exampleConfig) = Some (Finite 2)"
  by (simp_all add: exampleConfig_def exampleEnv_def exampleEnvNoKey_def resolveKey_def)

lemma initialDestState_simps [simp]:
  "currentState (initialDestState n) = Idle None"
  "requestKey (initialDestState n) = None"
  "listenerCount (initialDestState n) = 0"
  "retryAttempt (initialDestState n) = 0"
  "retryTimer (initialDestState n) = None"
  "refreshTimer (initialDestState n) = None"
  "history (initialDestState n) = 0"
  "historySize (initialDestState n) = n"
  "controller (initialDestState n) = None"
  "abortController (initialDestState n) = None"
  "destinationRequestKey (initialDestState n) = None"
  "arrays (initialDestState n) a = \<lparr>elems = [], frozen = False\<rparr>"
  "nextAddr (initialDestState n) = 1"
  "nextHandle (initialDestState n) = 1"
  "trace (initialDestState n) = []"
  by (simp_all add: initialDestState_def)

lemma truthy_not_None: "truthy k \<Longrightarrow> k \<noteq> None"
  by (auto simp: truthy_def split: option.splits)

lemma addHistoryEntry_nextAddr:
  "nextAddr (addHistoryEntry env st r s) =
     (if historySize s = 0 then nextAddr s else nextAddr s + 1)"
  by (simp add: addHistoryEntry_def Let_def)

lemma keyChanged_nextAddr:
  "nextAddr (keyChanged env k s) =
     nextAddr s + (if historySize s = 0 then 0 else if abortController s = None then 1 else 2)"
  by (auto simp: keyChanged_def abortInflight_def addHistoryEntry_nextAddr Let_def
      split: option.splits)

lemma example_states [simp]:
  "currentState stateWithData = Success 0 None"
  "requestKey stateWithData = Some ''A''"
  "listenerCount stateWithData = 1"
  "retryAttempt stateWithData = 0"
  "retryTimer stateWithData = None"
  "refreshTimer stateWithData = None"
  "historySize stateWithData = 10"
  "controller stateWithData = Some LiveController"
  "abortController stateWithData = None"
  "destinationRequestKey stateWithData = None"
  "nextAddr stateWithData = 1"
  "nextHandle stateWithData = 1"
  "trace stateWithData = []"
  "currentState stateInFlight = Loading 0 None"
  "requestKey stateInFlight = Some ''A''"
  "retryTimer stateInFlight = Some 2"
  "refreshTimer stateInFlight = Some 3"
  "abortController stateInFlight = Some 1"
  "historySize stateInFlight = 10"
  "trace stateInFlight = []"
  "currentState (stateFailed n) = Error ''HTTP 500'' 50 (Some (Finite 150))"
  "requestKey (stateFailed n) = Some ''A''"
  "listenerCount (stateFailed n) = n"
  "retryAttempt (stateFailed n) = 2"
  "retryTimer (stateFailed n) = Some 1"
  "historySize (stateFailed n) = 10"
  "history (stateFailed n) = 0"
  "arrays (stateFailed n) a = \<lparr>elems = [], frozen = False\<rparr>"
  "nextAddr (stateFailed n) = 1"
  "nextHandle (stateFailed n) = 2"
  "trace (stateFailed n) = []"
  by (simp_all add: stateWithData_def stateInFlight_def stateFailed_def)

subsection \<open>Scheduling and the controller grip\<close>

lemma scheduleRetry_scheduled:
  assumes "0 < listenerCount s"
    and "calculateRetryTime (now env) (retryAttempt s) (retry cfg) None = Some t"
  shows "retryAttempt (scheduleRetry cfg env s) = retryAttempt s + 1"
    and "timersArmed (trace (scheduleRetry cfg env s)) = timersArmed (trace s) @ [(nextHandle s, t)]"
    and "retryTimer (scheduleRetry cfg env s) = Some (nextHandle s)"
    and "currentState (scheduleRetry cfg env s) = with_retryAt (currentState s) (Some t)"
    and "fetches (trace (scheduleRetry cfg env s)) = fetches (trace s)"
  using assms by (simp_all add: scheduleRetry_def)

lemma scheduleRetry_not_scheduled:
  assumes "listenerCount s \<le> 0
      \<or> calculateRetryTime (now env) (retryAttempt s) (retry cfg) None = None"
  shows "retryAttempt (scheduleRetry cfg env s) = retryAttempt s"
    and "timersArmed (trace (scheduleRetry cfg env s)) = timersArmed (trace s)"
    and "retryTimer (scheduleRetry cfg env s) = retryTimer s"
    and "currentState (scheduleRetry cfg env s) = with_retryAt (currentState s) None"
    and "fetches (trace (scheduleRetry cfg env s)) = fetches (trace s)"
  using assms by (auto simp: scheduleRetry_def)

lemma scheduleRetry_attempt_timers:
  "retryAttempt (scheduleRetry cfg env s) =
     retryAttempt s +
       (length (timersArmed (trace (scheduleRetry cfg env s))) - length (timersArmed (trace s)))"
proof (cases "0 < listenerCount s
    \<and> calculateRetryTime (now env) (retryAttempt s) (retry cfg) None \<noteq> None")
  case True
  then obtain t where "calculateRetryTime (now env) (retryAttempt s) (retry cfg) None = Some t"
    by blast
  with True show ?thesis by (simp add: scheduleRetry_scheduled)
next
  case False
  then have "listenerCount s \<le> 0
      \<or> calculateRetryTime (now env) (retryAttempt s) (retry cfg) None = None"
    by auto
  then show ?thesis by (simp add: scheduleRetry_not_scheduled)
qed

lemma scheduleRefresh_timers:
  "timersArmed (trace (scheduleRefresh cfg env r s)) =
     timersArmed (trace s) @
     (if 0 < cacheTtlMs cfg
         \<and> now env < r + cacheTtlMs cfg - nullish (refreshBeforeExpiryMs cfg) 0
         \<and> 0 < listenerCount s
      then [(nextHandle s,
             Finite (of_int (r + cacheTtlMs cfg - nullish (refreshBeforeExpiryMs cfg) 0)))]
      else [])"
  by (simp add: scheduleRefresh_def calculateRefreshTime_def Let_def)

lemma publishController_fields [simp]:
  "currentState (publishController cfg s) = currentState s"
  "requestKey (publishController cfg s) = requestKey s"
  "listenerCount (publishController cfg s) = listenerCount s"
  "retryAttempt (publishController cfg s) = retryAttempt s"
  "retryTimer (publishController cfg s) = retryTimer s"
  "refreshTimer (publishController cfg s) = refreshTimer s"
  "history (publishController cfg s) = history s"
  "historySize (publishController cfg s) = historySize s"
  "controller (publishController cfg s) = controller s"
  "abortController (publishController cfg s) = abortController s"
  "nextHandle (publishController cfg s) = nextHandle s"
  "nextAddr (publishController cfg s) = nextAddr s"
  "arrays (publishController cfg s) = arrays s"
  "fetches (trace (publishController cfg s)) = fetches (trace s)"
  "timersArmed (trace (publishController cfg s)) = timersArmed (trace s)"
  "publishedOutputs (trace (publishController cfg s)) = publishedOutputs (trace s)"
  "publishedStates (trace (publishController cfg s)) = publishedStates (trace s)"
  "publishedHistories (trace (publishController cfg s)) = publishedHistories (trace s)"
  by (simp_all add: publishController_def Let_def)

lemma publishController_published:
  "publishedControllers (trace (publishController cfg s)) =
     publishedControllers (trace s) @
       (if controllerGrip cfg = None \<or> \<not> attached cfg then []
        else [case controller s of None \<Rightarrow> NoOpController | Some c \<Rightarrow> c])"
  by (simp add: publishController_def Let_def createNoOpController_def split: option.splits)

lemma onDisconnect_last_listener:
  assumes "isOutputGrip cfg g" and "listenerCount s \<le> 1" and "controllerGrip cfg \<noteq> None"
  shows "listenerCount (onDisconnect cfg g s) = 0"
    and "controller (onDisconnect cfg g s) = None"
    and "publishedControllers (trace (onDisconnect cfg g s)) =
           publishedControllers (trace s) @ (if attached cfg then [NoOpController] else [])"
  using assms
  by (auto simp: onDisconnect_def Let_def decrementListenerCount_def
      publishController_published split: option.splits)

lemma onConnect_metadata_grip:
  assumes "\<not> isOutputGrip cfg g" and "controllerGrip cfg \<noteq> None" and "controller s = None"
  shows "listenerCount (onConnect cfg env g s) = listenerCount s"
    and "controller (onConnect cfg env g s) = Some LiveController"
    and "publishedControllers (trace (onConnect cfg env g s)) =
           publishedControllers (trace s) @ (if attached cfg then [LiveController] else [])"
  using assms
  by (auto simp: onConnect_def Let_def publishController_published createController_def)

lemma isOutputGrip_example [simp]:
  "isOutputGrip exampleConfig g = (g = ''UserData'')"
  by (auto simp: isOutputGrip_def)

subsection \<open>A first request and a connect\<close>

lemma kickoff_key_change:
  assumes "resolveKey cfg env \<noteq> requestKey s" and "truthy (resolveKey cfg env)"
  shows "kickoff cfg env f s =
     kickoff cfg env False
       (addHistoryEntry env (Loading (now env) None) (Some ''request_initiated'')
          (keyChanged env (resolveKey cfg env) (kickoff_begin env s)))"
  using assms by (simp add: kickoff_changed_key handleRequestKeyChange_eq)

lemma kickoff_key_change_fetches:
  assumes "resolveKey cfg env \<noteq> requestKey s" and "truthy (resolveKey cfg env)"
  shows "fetches (trace (kickoff cfg env f s)) =
     fetches (trace s) @
       (if cached env \<noteq> None then [] else [(Some (nextHandle s + 1), resolveKey cfg env)])"
proof -
  from assms(2) have "resolveKey cfg env \<noteq> None"
    by (auto simp: truthy_def split: option.splits)
  then show ?thesis
    by (simp add: kickoff_key_change [OF assms] kickoff_same_key_fetches)
qed

lemma onConnect_fields [simp]:
  "currentState (onConnect cfg env g s) = currentState s"
  "requestKey (onConnect cfg env g s) = requestKey s"
  "retryAttempt (onConnect cfg env g s) = retryAttempt s"
  "retryTimer (onConnect cfg env g s) = retryTimer s"
  "refreshTimer (onConnect cfg env g s) = refreshTimer s"
  "history (onConnect cfg env g s) = history s"
  "historySize (onConnect cfg env g s) = historySize s"
  "abortController (onConnect cfg env g s) = abortController s"
  "nextHandle (onConnect cfg env g s) = nextHandle s"
  "fetches (trace (onConnect cfg env g s)) = fetches (trace s)"
  "listenerCount (onConnect cfg env g s) =
     (if isOutputGrip cfg g then listenerCount s + 1 else listenerCount s)"
  by (simp_all add: onConnect_def Let_def incrementListenerCount_def split: option.splits)

subsection \<open>The trace only grows\<close>

lemma trace_grows_basic [simp]:
  "e \<in> set (trace s) \<Longrightarrow> e \<in> set (trace (publishState s))"
  "e \<in> set (trace s) \<Longrightarrow> e \<in> set (trace (addHistoryEntry env st r s))"
  "e \<in> set (trace s) \<Longrightarrow> e \<in> set (trace (clearRetryTimer s))"
  "e \<in> set (trace s) \<Longrightarrow> e \<in> set (trace (clearRefreshTimer s))"
  by (simp_all add: addHistoryEntry_trace clearRetryTimer_trace clearRefreshTimer_trace)

lemma trace_grows_derived [simp]:
  "e \<in> set (trace s) \<Longrightarrow> e \<in> set (trace (cancelRetry s))"
  "e \<in> set (trace s) \<Longrightarrow> e \<in> set (trace (abortInflight env reason s))"
  "e \<in> set (trace s) \<Longrightarrow> e \<in> set (trace (transition env st r s))"
  "e \<in> set (trace s) \<Longrightarrow> e \<in> set (trace (resetToIdle cfg env s))"
  "e \<in> set (trace s) \<Longrightarrow> e \<in> set (trace (scheduleRefresh cfg env t s))"
  by (simp_all add: cancelRetry_def abortInflight_def transition_def resetToIdle_def
      scheduleRefresh_def Let_def split: option.splits)

lemma trace_grows_kickoff_parts [simp]:
  "e \<in> set (trace s) \<Longrightarrow> e \<in> set (trace (kickoff_begin env s))"
  "e \<in> set (trace s) \<Longrightarrow> e \<in> set (trace (kickoff_rest cfg env f s))"
  "e \<in> set (trace s) \<Longrightarrow> e \<in> set (trace (keyChanged env k s))"
  by (simp_all add: kickoff_begin_def kickoff_rest_def keyChanged_def Let_def
      split: option.splits)

lemma trace_grows_kickoff_same_key:
  "resolveKey cfg env = requestKey s \<Longrightarrow> e \<in> set (trace s) \<Longrightarrow>
   e \<in> set (trace (kickoff cfg env f s))"
  by (cases "requestKey s = None") (simp_all add: kickoff_same_key kickoff_null_key)

lemma abortInflight_aborts:
  "abortController s = Some c \<Longrightarrow> Abort c \<in> set (trace (abortInflight env reason s))"
  by (simp add: abortInflight_def Let_def)

lemma keyChanged_cancels:
  assumes "retryTimer s = Some t"
  shows "ClearTimeout t \<in> set (trace (keyChanged env k s))"
proof -
  have "ClearTimeout t \<in> set (trace (clearRetryTimer s))"
    using assms by (simp add: clearRetryTimer_trace)
  then show ?thesis by (simp add: keyChanged_def Let_def)
qed

lemma keyChanged_cancels_refresh:
  assumes "refreshTimer s = Some t"
  shows "ClearTimeout t \<in> set (trace (keyChanged env k s))"
proof -
  have "ClearTimeout t \<in> set (trace (clearRefreshTimer (clearRetryTimer s)))"
    using assms by (simp add: clearRefreshTimer_trace)
  then show ?thesis by (simp add: keyChanged_def Let_def)
qed

lemma keyChanged_aborts:
  assumes "abortController s = Some c"
  shows "Abort c \<in> set (trace (keyChanged env k s))"
proof -
  have "Abort c \<in> set (trace (abortInflight env ''request_key_changed_aborted''
      (clearRefreshTimer (clearRetryTimer s))))"
    using assms by (simp add: abortInflight_aborts)
  then show ?thesis by (simp add: keyChanged_def Let_def)
qed

subsection \<open>The history buffer\<close>

lemma historyEntries_unchanged [simp]:
  "historyEntries (publishState s) = historyEntries s"
  "historyEntries (emit e s) = historyEntries s"
  "historyEntries (clearRetryTimer s) = historyEntries s"
  "historyEntries (clearRefreshTimer s) = historyEntries s"
  "historyEntries (cancelRetry s) = historyEntries s"
  "historyEntries (publishController cfg s) = historyEntries s"
  by (simp_all add: historyEntries_def)

lemma historyEntries_updates [simp]:
  "historyEntries (s\<lparr>currentState := st\<rparr>) = historyEntries s"
  "historyEntries (s\<lparr>requestKey := k\<rparr>) = historyEntries s"
  "historyEntries (s\<lparr>retryAttempt := n\<rparr>) = historyEntries s"
  "historyEntries (s\<lparr>retryTimer := rt\<rparr>) = historyEntries s"
  "historyEntries (s\<lparr>refreshTimer := ft\<rparr>) = historyEntries s"
  "historyEntries (s\<lparr>abortController := ac\<rparr>) = historyEntries s"
  "historyEntries (s\<lparr>nextHandle := h\<rparr>) = historyEntries s"
  "historyEntries (s\<lparr>inflightSeq := i\<rparr>) = historyEntries s"
  "historyEntries (s\<lparr>listenerCount := l\<rparr>) = historyEntries s"
  "historyEntries (s\<lparr>controller := c\<rparr>) = historyEntries s"
  by (simp_all add: historyEntries_def)

lemma kickoff_same_key_fields:
  assumes "resolveKey cfg env = requestKey s"
  shows "requestKey (kickoff cfg env f s) = requestKey s"
    and "history (kickoff cfg env f s) = history s"
    and "historySize (kickoff cfg env f s) = historySize s"
  using assms
  by (cases "requestKey s = None"; simp add: kickoff_same_key kickoff_null_key)+

lemma resetToIdle_more_fields [simp]:
  "inflightSeq (resetToIdle cfg env s) = inflightSeq s"
  "nextHandle (resetToIdle cfg env s) = nextHandle s"
  by (simp_all add: resetToIdle_def Let_def split: option.splits)

subsection \<open>The array store\<close>

lemma evolves_refl: "store_ok s \<Longrightarrow> evolves s s"
  by (simp add: evolves_def)

lemma evolves_store_ok: "evolves s s' \<Longrightarrow> store_ok s'"
  by (simp add: evolves_def)

lemma evolves_trans: "evolves s x \<Longrightarrow> evolves x y \<Longrightarrow> evolves s y"
  unfolding evolves_def by (auto; metis le_trans less_le_trans not_less)

lemma evolves_compose: "evolves s x \<Longrightarrow> (store_ok x \<Longrightarrow> evolves x y) \<Longrightarrow> evolves s y"
  using evolves_trans evolves_store_ok by blast

lemma evolves_publishState_step: "store_ok x \<Longrightarrow> evolves x (publishState x)"
  by (auto simp: evolves_def store_ok_def list_all_iff)

lemma evolves_emit_step:
  "publishedHistories [e] = [] \<Longrightarrow> store_ok x \<Longrightarrow> evolves x (emit e x)"
  by (auto simp: evolves_def store_ok_def list_all_iff)

lemma evolves_addHistoryEntry_step: "store_ok x \<Longrightarrow> evolves x (addHistoryEntry env st r x)"
  by (auto simp: evolves_def store_ok_def list_all_iff addHistoryEntry_def Let_def
      array_push_def array_shift_def publishState_def emit_def)

lemma evolves_updates [simp]:
  "evolves s (x\<lparr>currentState := st\<rparr>) = evolves s x"
  "evolves s (x\<lparr>requestKey := k\<rparr>) = evolves s x"
  "evolves s (x\<lparr>listenerCount := l\<rparr>) = evolves s x"
  "evolves s (x\<lparr>retryAttempt := n\<rparr>) = evolves s x"
  "evolves s (x\<lparr>retryTimer := rt\<rparr>) = evolves s x"
  "evolves s (x\<lparr>refreshTimer := ft\<rparr>) = evolves s x"
  "evolves s (x\<lparr>controller := c\<rparr>) = evolves s x"
  "evolves s (x\<lparr>abortController := ac\<rparr>) = evolves s x"
  "evolves s (x\<lparr>inflightSeq := i\<rparr>) = evolves s x"
  "evolves s (x\<lparr>destinationRequestKey := d\<rparr>) = evolves s x"
  "evolves s (x\<lparr>listenerCounts := lc\<rparr>) = evolves s x"
  "evolves s (x\<lparr>nextHandle := h\<rparr>) = evolves s x"
  by (simp_all add: evolves_def store_ok_def)

lemma evolves_basic [simp]:
  "evolves s x \<Longrightarrow> evolves s (publishState x)"
  "evolves s x \<Longrightarrow> evolves s (addHistoryEntry env st r x)"
  "evolves s x \<Longrightarrow> evolves s (emit (PublishController c) x)"
  "evolves s x \<Longrightarrow> evolves s (emit (Publish u) x)"
  "evolves s x \<Longrightarrow> evolves s (emit (Abort h) x)"
  "evolves s x \<Longrightarrow> evolves s (emit (ClearTimeout h) x)"
  "evolves s x \<Longrightarrow> evolves s (emit (SetTimeout h t) x)"
  "evolves s x \<Longrightarrow> evolves s (emit (Fetch ac k) x)"
  by (erule evolves_compose, simp add: evolves_publishState_step evolves_addHistoryEntry_step
      evolves_emit_step)+

lemma evolves_primitives [simp]:
  "evolves s x \<Longrightarrow> evolves s (clearRetryTimer x)"
  "evolves s x \<Longrightarrow> evolves s (clearRefreshTimer x)"
  "evolves s x \<Longrightarrow> evolves s (publishController cfg x)"
  "evolves s x \<Longrightarrow> evolves s (incrementListenerCount key x)"
  "evolves s x \<Longrightarrow> evolves s (decrementListenerCount key x)"
  by (simp_all add: clearRetryTimer_def clearRefreshTimer_def publishController_def
      incrementListenerCount_def decrementListenerCount_def Let_def split: option.splits)

lemma evolves_derived [simp]:
  "evolves s x \<Longrightarrow> evolves s (cancelRetry x)"
  "evolves s x \<Longrightarrow> evolves s (abortInflight env reason x)"
  "evolves s x \<Longrightarrow> evolves s (transition env st r x)"
  "evolves s x \<Longrightarrow> evolves s (resetToIdle cfg env x)"
  "evolves s x \<Longrightarrow> evolves s (scheduleRefresh cfg env t x)"
  "evolves s x \<Longrightarrow> evolves s (scheduleRetry cfg env x)"
  by (simp_all add: cancelRetry_def abortInflight_def transition_def resetToIdle_def
      scheduleRefresh_def scheduleRetry_def Let_def split: option.splits)

lemma evolves_kickoff_parts [simp]:
  "evolves s x \<Longrightarrow> evolves s (kickoff_begin env x)"
  "evolves s x \<Longrightarrow> evolves s (kickoff_rest cfg env f x)"
  "evolves s x \<Longrightarrow> evolves s (keyChanged env k x)"
  by (simp_all add: kickoff_begin_def kickoff_rest_def keyChanged_def Let_def
      split: option.splits)

lemma evolves_kickoff_same_key:
  "resolveKey cfg env = requestKey x \<Longrightarrow> evolves s x \<Longrightarrow> evolves s (kickoff cfg env f x)"
  by (cases "requestKey x = None") (simp_all add: kickoff_same_key kickoff_null_key)

lemma evolves_keyChange_resolved:
  "evolves s x \<Longrightarrow> evolves s (handleRequestKeyChange cfg env oldKey (resolveKey cfg env) x)"
  by (simp add: handleRequestKeyChange_eq evolves_kickoff_same_key)

lemma evolves_kickoff [simp]: "evolves s x \<Longrightarrow> evolves s (kickoff cfg env f x)"
proof (cases "resolveKey cfg env = requestKey x")
  case True
  then show "evolves s x \<Longrightarrow> ?thesis" by (rule evolves_kickoff_same_key)
next
  case False
  then have "kickoff cfg env f x =
      handleRequestKeyChange cfg env (requestKey x) (resolveKey cfg env) (kickoff_begin env x)"
    by (rule kickoff_changed_key)
  then show "evolves s x \<Longrightarrow> ?thesis" by (simp add: evolves_keyChange_resolved)
qed

lemma evolves_handleRequestKeyChange [simp]:
  "evolves s x \<Longrightarrow> evolves s (handleRequestKeyChange cfg env oldKey newKey x)"
  by (simp add: handleRequestKeyChange_eq)

lemma evolves_reset_step: "store_ok x \<Longrightarrow> evolves x (reset x)"
proof -
  assume ok: "store_ok x"
  let ?x2 = "cancelRetry (case abortController x of None \<Rightarrow> x
               | Some c \<Rightarrow> (emit (Abort c) x)\<lparr>abortController := None\<rparr>)"
  let ?x3 = "?x2\<lparr>retryAttempt := 0, history := nextAddr ?x2,
                  arrays := (arrays ?x2)(nextAddr ?x2 := \<lparr>elems = [], frozen = False\<rparr>),
                  nextAddr := nextAddr ?x2 + 1, currentState := Idle None\<rparr>"
  have 2: "evolves x ?x2"
    using ok by (simp add: evolves_refl split: option.splits)
  have 3: "evolves ?x2 ?x3"
    using evolves_store_ok [OF 2]
    by (auto simp: evolves_def store_ok_def list_all_iff)
  have "evolves x ?x3" using 2 3 by (rule evolves_trans)
  then have "evolves x (publishState ?x3)" by simp
  then show ?thesis by (simp add: reset_def Let_def)
qed

lemma evolves_reset [simp]: "evolves s x \<Longrightarrow> evolves s (reset x)"
  by (erule evolves_compose) (rule evolves_reset_step)

lemma evolves_controller [simp]:
  "evolves s x \<Longrightarrow> evolves s (controller_retry cfg env f x)"
  "evolves s x \<Longrightarrow> evolves s (controller_refresh cfg env f x)"
  by (simp_all add: controller_retry_eq controller_refresh_eq split: option.splits)

lemma evolves_invoke [simp]: "evolves s x \<Longrightarrow> evolves s (invoke cfg env c m x)"
  by (cases c; cases m) simp_all

lemma evolves_executeRetry [simp]: "evolves s x \<Longrightarrow> evolves s (executeRetry cfg env key x)"
  by (simp add: executeRetry_def Let_def)

lemma evolves_executeRefresh [simp]:
  "evolves s x \<Longrightarrow> evolves s (executeRefresh cfg env key x)"
  by (simp add: executeRefresh_def Let_def)

lemma evolves_onConnect [simp]: "evolves s x \<Longrightarrow> evolves s (onConnect cfg env g x)"
  by (simp add: onConnect_def Let_def split: option.splits)

lemma evolves_onDisconnect [simp]: "evolves s x \<Longrightarrow> evolves s (onDisconnect cfg g x)"
  by (simp add: onDisconnect_def Let_def split: option.splits)

lemma consumerWrite_keeps_frozen:
  assumes "store_ok x" and "\<And>h. frozen h \<Longrightarrow> f h = h"
  shows "consumerWrite a f x = x"
proof (cases "a \<in> set (publishedHistories (trace x))")
  case True
  then have "frozen (arrays x a)"
    using assms(1) by (auto simp: store_ok_def list_all_iff)
  then have "f (arrays x a) = arrays x a"
    by (rule assms(2))
  then show ?thesis by (simp add: consumerWrite_def)
next
  case False
  then show ?thesis by (simp add: consumerWrite_def)
qed

lemma consumerWrite_frozen:
  "store_ok x \<Longrightarrow> consumerWrite a (\<lambda>h. array_push h e) x = x"
  "store_ok x \<Longrightarrow> consumerWrite a array_shift x = x"
  "store_ok x \<Longrightarrow> consumerWrite a (\<lambda>h. array_assign h i e) x = x"
  by (rule consumerWrite_keeps_frozen;
      simp add: array_push_def array_shift_def array_assign_def)+

lemma evolves_step [simp]: "evolves s x \<Longrightarrow> evolves s (step cfg ev x)"
proof -
  assume e: "evolves s x"
  obtain env v where ev: "ev = (env, v)" by (cases ev)
  show ?thesis
    using e evolves_store_ok [OF e]
    by (cases v) (simp_all add: ev consumerWrite_frozen)
qed

lemma evolves_run: "evolves s x \<Longrightarrow> evolves s (run cfg evs x)"
  by (induction evs arbitrary: x) simp_all

lemma store_ok_initial: "store_ok (initialDestState n)"
  by (simp add: store_ok_def)

lemma store_ok_run: "store_ok (run cfg evs (initialDestState n))"
  using evolves_run [OF evolves_refl [OF store_ok_initial]] by (rule evolves_store_ok)

lemma resetToIdle_publishedStates:
  "publishedStates (trace (resetToIdle cfg env s)) =
     publishedStates (trace s) @
       [\<lparr>a_state = Idle None, a_requestKey = requestKey s,
         a_hasListeners = (0 < listenerCount s), a_history = nextAddr s\<rparr>]"
  by (simp add: resetToIdle_def Let_def snapshot_def split: option.splits)

lemma onConnect_initial:
  "trace (onConnect exampleConfig (exampleEnv 0 ''42'') ''UserData'' (initialDestState 10)) =
     [PublishController LiveController,
      PublishState \<lparr>a_state = Idle None, a_requestKey = None, a_hasListeners = True,
                    a_history = 1\<rparr>]"
  "nextAddr (onConnect exampleConfig (exampleEnv 0 ''42'') ''UserData'' (initialDestState 10)) = 2"
  "historyEntries (onConnect exampleConfig (exampleEnv 0 ''42'') ''UserData''
     (initialDestState 10)) = []"
  "arrays (onConnect exampleConfig (exampleEnv 0 ''42'') ''UserData'' (initialDestState 10))
     (Suc 0) = \<lparr>elems = [], frozen = True\<rparr>"
  by (simp_all add: onConnect_def Let_def incrementListenerCount_def publishController_def
      createController_def truthy_def snapshot_def historyEntries_def frozen_copy_def)

subsection \<open>What the history ring holds\<close>

lemma keepLast_short: "length xs \<le> n \<Longrightarrow> keepLast n xs = xs"
  by (simp add: keepLast_def)

lemma length_keepLast: "length (keepLast n xs) \<le> n"
  by (simp add: keepLast_def)

lemma keepLast_0 [simp]: "keepLast 0 xs = []"
  by (simp add: keepLast_def)

lemma keepLast_append_keepLast: "keepLast n (keepLast n xs @ ys) = keepLast n (xs @ ys)"
proof -
  let ?k = "length xs - n"
  have 1: "drop ?k xs @ ys = drop ?k (xs @ ys)" by simp
  have 2: "length (drop ?k xs @ ys) - n + ?k = length (xs @ ys) - n" by simp
  have "keepLast n (keepLast n xs @ ys) = drop (length (drop ?k xs @ ys) - n) (drop ?k (xs @ ys))"
    unfolding keepLast_def by (simp only: 1)
  also have "\<dots> = drop (length (drop ?k xs @ ys) - n + ?k) (xs @ ys)"
    by (simp only: drop_drop)
  also have "\<dots> = keepLast n (xs @ ys)"
    unfolding keepLast_def by (simp only: 2)
  finally show ?thesis .
qed

lemma keepLast_snoc:
  assumes "length xs \<le> n"
  shows "keepLast n (xs @ [e]) =
     (if n = 0 then [] else if n < length (xs @ [e]) then tl (xs @ [e]) else xs @ [e])"
proof (cases "n = 0")
  case True
  then show ?thesis by simp
next
  case False
  show ?thesis
  proof (cases "n < length (xs @ [e])")
    case True
    then have "length (xs @ [e]) - n = 1" using assms by simp
    then have "keepLast n (xs @ [e]) = drop 1 (xs @ [e])"
      unfolding keepLast_def by (simp only:)
    also have "\<dots> = tl (xs @ [e])"
      by (simp only: One_nat_def drop_Suc drop_0)
    finally show ?thesis using True False by (simp only: if_True if_False)
  next
    case nl: False
    then have "keepLast n (xs @ [e]) = xs @ [e]" by (simp add: keepLast_def)
    then show ?thesis using nl False by (simp only: if_False)
  qed
qed

lemma historyEntries_addHistoryEntry:
  assumes "store_ok s" and "length (historyEntries s) \<le> historySize s"
  shows "historyEntries (addHistoryEntry env st r s) =
     keepLast (historySize s)
       (historyEntries s @
          [\<lparr>h_state = currentState s, h_timestamp = now env, h_requestKey = requestKey s,
            h_transitionReason = r\<rparr>])"
proof -
  let ?e = "\<lparr>h_state = currentState s, h_timestamp = now env, h_requestKey = requestKey s,
             h_transitionReason = r\<rparr>"
  have nf: "\<not> frozen (arrays s (history s))" and lt: "history s < nextAddr s"
    using assms(1) by (simp_all add: store_ok_def)
  have "historyEntries (addHistoryEntry env st r s) =
      (if historySize s = 0 then historyEntries s
       else if historySize s < length (historyEntries s @ [?e])
            then tl (historyEntries s @ [?e]) else historyEntries s @ [?e])"
    using nf lt
    by (simp add: addHistoryEntry_def Let_def historyEntries_def publishState_def emit_def
        array_push_def array_shift_def)
  also have "\<dots> = keepLast (historySize s) (historyEntries s @ [?e])"
    using assms(2) by (cases "historySize s = 0") (simp_all add: keepLast_snoc)
  finally show ?thesis .
qed

lemma ring_addHistoryEntry:
  assumes "store_ok x" and "historyEntries x = keepLast (historySize x) ys"
  shows "historyEntries (addHistoryEntry env st r x) =
     keepLast (historySize x)
       (ys @ [\<lparr>h_state = currentState x, h_timestamp = now env, h_requestKey = requestKey x,
               h_transitionReason = r\<rparr>])"
proof -
  have "length (historyEntries x) \<le> historySize x"
    unfolding assms(2) by (rule length_keepLast)
  then show ?thesis
    using historyEntries_addHistoryEntry [OF assms(1), of env st r]
    by (simp add: assms(2) keepLast_append_keepLast)
qed


lemma store_ok_emit: "store_ok x \<Longrightarrow> publishedHistories [e] = [] \<Longrightarrow> store_ok (emit e x)"
  using evolves_emit_step evolves_store_ok by blast

lemma ring_transition:
  assumes "store_ok x" and "historyEntries x = keepLast (historySize x) ys"
  shows "historyEntries (transition env st r x) =
     keepLast (historySize x)
       (ys @ [\<lparr>h_state = currentState x, h_timestamp = now env, h_requestKey = requestKey x,
               h_transitionReason = r\<rparr>])"
proof (cases "historySize x = 0")
  case True
  then show ?thesis using assms(2) by (simp add: transition_def)
next
  case False
  then show ?thesis using ring_addHistoryEntry [OF assms] by (simp add: transition_def)
qed

lemma ring_abortInflight:
  assumes "store_ok x" and "historyEntries x = keepLast (historySize x) ys"
  shows "historyEntries (abortInflight env reason x) =
     keepLast (historySize x)
       (ys @ (case abortController x of None \<Rightarrow> []
              | Some c \<Rightarrow> [\<lparr>h_state = currentState x, h_timestamp = now env,
                             h_requestKey = requestKey x,
                             h_transitionReason = Some reason\<rparr>]))"
proof (cases "abortController x")
  case None
  then show ?thesis using assms(2) by (simp add: abortInflight_def)
next
  case (Some c)
  have ok: "store_ok (emit (Abort c) x)"
    using assms(1) by (simp add: store_ok_emit)
  have h: "historyEntries (emit (Abort c) x) = keepLast (historySize (emit (Abort c) x)) ys"
    using assms(2) by simp
  show ?thesis
    using ring_addHistoryEntry [OF ok h, of env "currentState x" "Some reason"] Some
    by (simp add: abortInflight_def Let_def)
qed

lemma ring_keyChanged:
  assumes "store_ok s" and "historyEntries s = keepLast (historySize s) ys"
  shows "historyEntries (keyChanged env k s) =
     keepLast (historySize s)
       (ys @ (case abortController s of None \<Rightarrow> []
              | Some c \<Rightarrow> [\<lparr>h_state = currentState s, h_timestamp = now env,
                             h_requestKey = requestKey s,
                             h_transitionReason = Some ''request_key_changed_aborted''\<rparr>])
           @ [\<lparr>h_state = currentState s, h_timestamp = now env, h_requestKey = k,
               h_transitionReason = Some ''request_key_changed''\<rparr>])"
proof -
  let ?x2 = "clearRefreshTimer (clearRetryTimer s)"
  let ?x3 = "abortInflight env ''request_key_changed_aborted'' ?x2"
  let ?x5 = "?x3\<lparr>retryAttempt := 0, requestKey := k\<rparr>"
  let ?a1 = "case abortController s of None \<Rightarrow> []
              | Some c \<Rightarrow> [\<lparr>h_state = currentState s, h_timestamp = now env,
                             h_requestKey = requestKey s,
                             h_transitionReason = Some ''request_key_changed_aborted''\<rparr>]"
  have e2: "evolves s ?x2" using assms(1) by (simp add: evolves_refl)
  have ok2: "store_ok ?x2" using e2 by (rule evolves_store_ok)
  have h2: "historyEntries ?x2 = keepLast (historySize ?x2) ys" using assms(2) by simp
  have h3: "historyEntries ?x3 = keepLast (historySize s) (ys @ ?a1)"
    using ring_abortInflight [OF ok2 h2, of env "''request_key_changed_aborted''"]
    by (simp cong: option.case_cong)
  have e5: "evolves s ?x5" using e2 by simp
  have ok5: "store_ok ?x5" using e5 by (rule evolves_store_ok)
  have h5: "historyEntries ?x5 = keepLast (historySize ?x5) (ys @ ?a1)"
    using h3 by simp
  show ?thesis
    using ring_addHistoryEntry [OF ok5 h5, of env "with_retryAt (currentState ?x5) None"
        "Some ''request_key_changed''"]
    by (simp add: keyChanged_def Let_def)
qed

lemma historyEntries_scheduleRefresh [simp]:
  "historyEntries (scheduleRefresh cfg env t s) = historyEntries s"
  by (simp add: scheduleRefresh_def split: option.splits)

lemma ring_kickoff_rest:
  assumes "store_ok x" and "historyEntries x = keepLast (historySize x) ys"
  shows "historyEntries (kickoff_rest cfg env f x) =
     keepLast (historySize x)
       (ys @ [\<lparr>h_state = currentState x, h_timestamp = now env, h_requestKey = requestKey x,
               h_transitionReason =
                 Some (if \<not> f \<and> cached env \<noteq> None then ''cache_hit''
                       else if hasData (currentState x) then ''refresh_initiated''
                       else ''request_initiated'')\<rparr>])"
proof -
  let ?x1 = "x\<lparr>inflightSeq := inflightSeq x + 1\<rparr>"
  have e1: "evolves x ?x1" using assms(1) by (simp add: evolves_refl)
  have ok1: "store_ok ?x1" using e1 by (rule evolves_store_ok)
  have h1: "historyEntries ?x1 = keepLast (historySize ?x1) ys" using assms(2) by simp
  show ?thesis
  proof (cases "\<not> f \<and> cached env \<noteq> None")
    case True
    then obtain result where c: "cached env = Some result" by blast
    have okp: "store_ok (emit (Publish result) ?x1)" using ok1 by (simp add: store_ok_emit)
    have hp: "historyEntries (emit (Publish result) ?x1) =
        keepLast (historySize (emit (Publish result) ?x1)) ys"
      using h1 by simp
    show ?thesis
      using ring_transition [OF okp hp, of env "Success (now env) None" "Some ''cache_hit''"]
        True c
      by (simp add: kickoff_rest_def Let_def)
  next
    case False
    then have n: "(if f then None else cached env) = None" by auto
    show ?thesis
      using ring_transition [OF ok1 h1, of env "nextRequestState (now env) (currentState ?x1)"
          "Some (if hasData (currentState ?x1) then ''refresh_initiated''
                 else ''request_initiated'')"] False
      by (auto simp: kickoff_rest_def Let_def n)
  qed
qed

lemma ring_kickoff_begin:
  assumes "store_ok x" and "historyEntries x = keepLast (historySize x) ys"
  shows "historyEntries (kickoff_begin env x) =
     keepLast (historySize x)
       (ys @ (case abortController x of None \<Rightarrow> []
              | Some c \<Rightarrow> [\<lparr>h_state = currentState x, h_timestamp = now env,
                             h_requestKey = requestKey x,
                             h_transitionReason = Some ''concurrent_request_aborted''\<rparr>]))"
  using ring_abortInflight [OF assms, of env "''concurrent_request_aborted''"]
  by (simp add: kickoff_begin_def Let_def)

lemma ring_handleRequestKeyChange:
  assumes "store_ok s" and "length (historyEntries s) \<le> historySize s"
    and "resolveKey cfg env = newKey"
  shows "historyEntries (handleRequestKeyChange cfg env oldKey newKey s) =
     keepLast (historySize s)
       (historyEntries s
        @ (case abortController s of None \<Rightarrow> []
           | Some c \<Rightarrow> [\<lparr>h_state = currentState s, h_timestamp = now env,
                          h_requestKey = requestKey s,
                          h_transitionReason = Some ''request_key_changed_aborted''\<rparr>])
        @ [\<lparr>h_state = currentState s, h_timestamp = now env, h_requestKey = newKey,
            h_transitionReason = Some ''request_key_changed''\<rparr>]
        @ (if truthy newKey
           then [\<lparr>h_state = with_retryAt (currentState s) None, h_timestamp = now env,
                   h_requestKey = newKey, h_transitionReason = Some ''request_initiated''\<rparr>,
                 \<lparr>h_state = Loading (now env) None, h_timestamp = now env,
                   h_requestKey = newKey,
                   h_transitionReason =
                     Some (if cached env = None then ''request_initiated''
                           else ''cache_hit'')\<rparr>]
           else []))"
proof -
  let ?a1 = "case abortController s of None \<Rightarrow> []
           | Some c \<Rightarrow> [\<lparr>h_state = currentState s, h_timestamp = now env,
                          h_requestKey = requestKey s,
                          h_transitionReason = Some ''request_key_changed_aborted''\<rparr>]"
  let ?e2 = "\<lparr>h_state = currentState s, h_timestamp = now env, h_requestKey = newKey,
            h_transitionReason = Some ''request_key_changed''\<rparr>"
  let ?k = "keyChanged env newKey s"
  have h0: "historyEntries s = keepLast (historySize s) (historyEntries s)"
    using assms(2) by (simp add: keepLast_short)
  have hk: "historyEntries ?k = keepLast (historySize s) (historyEntries s @ ?a1 @ [?e2])"
    using ring_keyChanged [OF assms(1) h0] by simp
  have ek: "evolves s ?k" using assms(1) by (simp add: evolves_refl)
  have okk: "store_ok ?k" using ek by (rule evolves_store_ok)
  show ?thesis
  proof (cases "truthy newKey")
    case f: False
    have "historyEntries (resetToIdle cfg env ?k) = historyEntries ?k"
      by (simp add: resetToIdle_def Let_def historyEntries_def split: option.splits)
    then show ?thesis using f hk by (simp add: handleRequestKeyChange_eq)
  next
    case t: True
    then have nn: "newKey \<noteq> None" by (rule truthy_not_None)
    let ?inner = "addHistoryEntry env (Loading (now env) None) (Some ''request_initiated'') ?k"
    let ?E3 = "\<lparr>h_state = currentState ?k, h_timestamp = now env,
                   h_requestKey = newKey, h_transitionReason = Some ''request_initiated''\<rparr>"
    let ?E4 = "\<lparr>h_state = currentState ?inner, h_timestamp = now env,
                   h_requestKey = newKey,
                   h_transitionReason =
                     Some (if cached env \<noteq> None then ''cache_hit''
                           else if hasData (currentState ?inner) then ''refresh_initiated''
                           else ''request_initiated'')\<rparr>"
    have hk': "historyEntries ?k = keepLast (historySize ?k) (historyEntries s @ ?a1 @ [?e2])"
      using hk by simp
    have hi: "historyEntries ?inner =
        keepLast (historySize s) ((historyEntries s @ ?a1 @ [?e2]) @ [?E3])"
      using ring_addHistoryEntry [OF okk hk', of env "Loading (now env) None"
          "Some ''request_initiated''"]
      by simp
    have ei: "evolves s ?inner" using ek by simp
    have oki: "store_ok ?inner" using ei by (rule evolves_store_ok)
    have eb: "evolves s (kickoff_begin env ?inner)" using ei by simp
    have okb: "store_ok (kickoff_begin env ?inner)" using eb by (rule evolves_store_ok)
    have hi': "historyEntries ?inner =
        keepLast (historySize ?inner) ((historyEntries s @ ?a1 @ [?e2]) @ [?E3])"
      using hi by simp
    have hb: "historyEntries (kickoff_begin env ?inner) =
        keepLast (historySize (kickoff_begin env ?inner))
          ((historyEntries s @ ?a1 @ [?e2]) @ [?E3])"
      using ring_kickoff_begin [OF oki hi', of env] by simp
    have hr: "historyEntries (kickoff_rest cfg env False (kickoff_begin env ?inner)) =
        keepLast (historySize s) (((historyEntries s @ ?a1 @ [?e2]) @ [?E3]) @ [?E4])"
      using ring_kickoff_rest [OF okb hb, of cfg env False] by simp
    have eq: "handleRequestKeyChange cfg env oldKey newKey s =
        kickoff_rest cfg env False (kickoff_begin env ?inner)"
      using t nn assms(3) by (simp add: handleRequestKeyChange_eq kickoff_same_key)
    show ?thesis
    proof (cases "historySize s = 0")
      case True
      then show ?thesis by (simp only: eq hr keepLast_0)
    next
      case False
      have c3: "currentState ?k = with_retryAt (currentState s) None" using False by simp
      have c4: "currentState ?inner = Loading (now env) None" using False by simp
      show ?thesis
        using t by (simp add: eq hr c3 c4 del: addHistoryEntry_fields keyChanged_fields)
    qed
  qed
qed

subsection \<open>The refresh timer without listeners\<close>

lemma transition_trace:
  "trace (transition env st r s) =
     trace s @ [PublishState \<lparr>a_state = st, a_requestKey = requestKey s,
                  a_hasListeners = (0 < listenerCount s), a_history = nextAddr s\<rparr>]"
  by (simp add: transition_def addHistoryEntry_trace snapshot_def)

lemma executeRefresh_no_listeners:
  assumes "listenerCount s = 0"
  shows "fetches (trace (executeRefresh cfg env key s)) = fetches (trace s)"
    and "timersArmed (trace (executeRefresh cfg env key s)) = timersArmed (trace s)"
    and "refreshTimer (executeRefresh cfg env key s) = None"
    and "listenerCount (executeRefresh cfg env key s) = 0"
    and "currentState (executeRefresh cfg env key s) = with_retryAt (currentState s) None"
    and "trace (executeRefresh cfg env key s) =
           trace s @ [PublishState \<lparr>a_state = with_retryAt (currentState s) None,
                        a_requestKey = requestKey s, a_hasListeners = False,
                        a_history = nextAddr s\<rparr>]"
  using assms
  by (simp_all add: executeRefresh_def Let_def transition_trace snapshot_def)

lemma executeRefresh_recorded_before:
  assumes "listenerCount s = 0"
    and "list_ex (\<lambda>e. h_transitionReason e = Some ''listener_unsubscribed'') (historyEntries s)
         \<or> historySize s = 0"
  shows "historyEntries (executeRefresh cfg env key s) = historyEntries s"
  using assms by (auto simp: executeRefresh_def Let_def transition_def)

lemma executeRefresh_records:
  assumes "listenerCount s = 0" and "store_ok s" and "historySize s \<noteq> 0"
    and "length (historyEntries s) \<le> historySize s"
    and "\<not> list_ex (\<lambda>e. h_transitionReason e = Some ''listener_unsubscribed'') (historyEntries s)"
  shows "historyEntries (executeRefresh cfg env key s) =
     keepLast (historySize s)
       (historyEntries s @
        [\<lparr>h_state = currentState s, h_timestamp = now env, h_requestKey = requestKey s,
          h_transitionReason = Some ''listener_unsubscribed''\<rparr>])"
proof -
  let ?s1 = "s\<lparr>refreshTimer := None\<rparr>"
  have e1: "evolves s ?s1" using assms(2) by (simp add: evolves_refl)
  have ok1: "store_ok ?s1" using e1 by (rule evolves_store_ok)
  have h1: "historyEntries ?s1 = keepLast (historySize ?s1) (historyEntries s)"
    using assms(4) by (simp add: keepLast_short)
  show ?thesis
    using ring_transition [OF ok1 h1, of env "with_retryAt (currentState ?s1) None"
        "Some ''listener_unsubscribed''"] assms(1,5)
    by (simp add: executeRefresh_def Let_def)
qed

subsection \<open>The size of the history\<close>

lemma history_ok_store: "history_ok x \<Longrightarrow> store_ok x"
  by (simp add: history_ok_def)

lemma history_ok_initial: "history_ok (initialDestState n)"
  by (simp add: history_ok_def store_ok_initial historyEntries_def)

lemma history_ok_updates [simp]:
  "history_ok (x\<lparr>currentState := st\<rparr>) = history_ok x"
  "history_ok (x\<lparr>requestKey := k\<rparr>) = history_ok x"
  "history_ok (x\<lparr>listenerCount := l\<rparr>) = history_ok x"
  "history_ok (x\<lparr>retryAttempt := n\<rparr>) = history_ok x"
  "history_ok (x\<lparr>retryTimer := rt\<rparr>) = history_ok x"
  "history_ok (x\<lparr>refreshTimer := ft\<rparr>) = history_ok x"
  "history_ok (x\<lparr>controller := c\<rparr>) = history_ok x"
  "history_ok (x\<lparr>abortController := ac\<rparr>) = history_ok x"
  "history_ok (x\<lparr>inflightSeq := i\<rparr>) = history_ok x"
  "history_ok (x\<lparr>destinationRequestKey := d\<rparr>) = history_ok x"
  "history_ok (x\<lparr>listenerCounts := lc\<rparr>) = history_ok x"
  "history_ok (x\<lparr>nextHandle := h\<rparr>) = history_ok x"
  by (simp_all add: history_ok_def store_ok_def historyEntries_def)

lemma history_ok_publishState [simp]: "history_ok x \<Longrightarrow> history_ok (publishState x)"
  using evolves_publishState_step [of x] evolves_store_ok
  by (auto simp: history_ok_def)

lemma history_ok_addHistoryEntry [simp]:
  "history_ok x \<Longrightarrow> history_ok (addHistoryEntry env st r x)"
  using evolves_addHistoryEntry_step [of x env st r] evolves_store_ok
    historyEntries_addHistoryEntry [of x env st r] length_keepLast
  by (auto simp: history_ok_def)

lemma history_ok_emit [simp]:
  "history_ok x \<Longrightarrow> history_ok (emit (PublishController c) x)"
  "history_ok x \<Longrightarrow> history_ok (emit (Publish u) x)"
  "history_ok x \<Longrightarrow> history_ok (emit (Abort h) x)"
  "history_ok x \<Longrightarrow> history_ok (emit (ClearTimeout h) x)"
  "history_ok x \<Longrightarrow> history_ok (emit (SetTimeout h t) x)"
  "history_ok x \<Longrightarrow> history_ok (emit (Fetch ac k) x)"
  by (simp_all add: history_ok_def store_ok_emit)

lemma history_ok_primitives [simp]:
  "history_ok x \<Longrightarrow> history_ok (clearRetryTimer x)"
  "history_ok x \<Longrightarrow> history_ok (clearRefreshTimer x)"
  "history_ok x \<Longrightarrow> history_ok (publishController cfg x)"
  "history_ok x \<Longrightarrow> history_ok (incrementListenerCount key x)"
  "history_ok x \<Longrightarrow> history_ok (decrementListenerCount key x)"
  by (simp_all add: clearRetryTimer_def clearRefreshTimer_def publishController_def
      incrementListenerCount_def decrementListenerCount_def Let_def split: option.splits)

lemma history_ok_derived [simp]:
  "history_ok x \<Longrightarrow> history_ok (cancelRetry x)"
  "history_ok x \<Longrightarrow> history_ok (abortInflight env reason x)"
  "history_ok x \<Longrightarrow> history_ok (transition env st r x)"
  "history_ok x \<Longrightarrow> history_ok (resetToIdle cfg env x)"
  "history_ok x \<Longrightarrow> history_ok (scheduleRefresh cfg env t x)"
  "history_ok x \<Longrightarrow> history_ok (scheduleRetry cfg env x)"
  by (simp_all add: cancelRetry_def abortInflight_def transition_def resetToIdle_def
      scheduleRefresh_def scheduleRetry_def Let_def split: option.splits)

lemma history_ok_kickoff_parts [simp]:
  "history_ok x \<Longrightarrow> history_ok (kickoff_begin env x)"
  "history_ok x \<Longrightarrow> history_ok (kickoff_rest cfg env f x)"
  "history_ok x \<Longrightarrow> history_ok (keyChanged env k x)"
  by (simp_all add: kickoff_begin_def kickoff_rest_def keyChanged_def Let_def
      split: option.splits)

lemma history_ok_kickoff_same_key:
  "resolveKey cfg env = requestKey x \<Longrightarrow> history_ok x \<Longrightarrow> history_ok (kickoff cfg env f x)"
  by (cases "requestKey x = None") (simp_all add: kickoff_same_key kickoff_null_key)

lemma history_ok_keyChange_resolved:
  "history_ok x \<Longrightarrow> history_ok (handleRequestKeyChange cfg env oldKey (resolveKey cfg env) x)"
  by (simp add: handleRequestKeyChange_eq history_ok_kickoff_same_key)

lemma history_ok_kickoff [simp]: "history_ok x \<Longrightarrow> history_ok (kickoff cfg env f x)"
proof (cases "resolveKey cfg env = requestKey x")
  case True
  then show "history_ok x \<Longrightarrow> ?thesis" by (rule history_ok_kickoff_same_key)
next
  case False
  then have "kickoff cfg env f x =
      handleRequestKeyChange cfg env (requestKey x) (resolveKey cfg env) (kickoff_begin env x)"
    by (rule kickoff_changed_key)
  then show "history_ok x \<Longrightarrow> ?thesis" by (simp add: history_ok_keyChange_resolved)
qed

lemma history_ok_handleRequestKeyChange [simp]:
  "history_ok x \<Longrightarrow> history_ok (handleRequestKeyChange cfg env oldKey newKey x)"
  by (simp add: handleRequestKeyChange_eq)

lemma history_ok_reset [simp]: "history_ok x \<Longrightarrow> history_ok (reset x)"
proof -
  assume h: "history_ok x"
  have "store_ok (reset x)"
    using evolves_reset_step [of x] evolves_store_ok h by (auto simp: history_ok_def)
  moreover have "historyEntries (reset x) = []"
    by (simp add: reset_def Let_def historyEntries_def)
  ultimately show ?thesis by (simp add: history_ok_def)
qed

lemma history_ok_controller [simp]:
  "history_ok x \<Longrightarrow> history_ok (controller_retry cfg env f x)"
  "history_ok x \<Longrightarrow> history_ok (controller_refresh cfg env f x)"
  by (simp_all add: controller_retry_eq controller_refresh_eq split: option.splits)

lemma history_ok_invoke [simp]: "history_ok x \<Longrightarrow> history_ok (invoke cfg env c m x)"
  by (cases c; cases m) simp_all

lemma history_ok_timers [simp]:
  "history_ok x \<Longrightarrow> history_ok (executeRetry cfg env key x)"
  "history_ok x \<Longrightarrow> history_ok (executeRefresh cfg env key x)"
  by (simp_all add: executeRetry_def executeRefresh_def Let_def)

lemma history_ok_connect [simp]:
  "history_ok x \<Longrightarrow> history_ok (onConnect cfg env g x)"
  "history_ok x \<Longrightarrow> history_ok (onDisconnect cfg g x)"
  by (simp_all add: onConnect_def onDisconnect_def Let_def split: option.splits)

lemma history_ok_step [simp]: "history_ok x \<Longrightarrow> history_ok (step cfg ev x)"
proof -
  assume h: "history_ok x"
  obtain env v where ev: "ev = (env, v)" by (cases ev)
  show ?thesis
    using h history_ok_store [OF h]
    by (cases v) (simp_all add: ev consumerWrite_frozen)
qed

lemma history_ok_run: "history_ok x \<Longrightarrow> history_ok (run cfg evs x)"
  by (induction evs arbitrary: x) simp_all

subsection \<open>The example states\<close>

lemma example_states_more [simp]:
  "currentState (stateCached n) = Success 0 (Some (Finite 295000))"
  "requestKey (stateCached n) = Some ''A''"
  "listenerCount (stateCached n) = n"
  "refreshTimer (stateCached n) = Some 1"
  "retryTimer (stateCached n) = None"
  "historySize (stateCached n) = 10"
  "nextAddr (stateCached n) = 1"
  "nextHandle (stateCached n) = 2"
  "trace (stateCached n) = []"
  "listenerCount stateInFlight = 1"
  "retryAttempt stateInFlight = 2"
  "nextAddr stateInFlight = 1"
  "nextHandle stateInFlight = 4"
  by (simp_all add: stateCached_def stateInFlight_def)

lemma historyEntries_examples:
  "historyEntries stateWithData = []"
  "historyEntries stateInFlight = []"
  "historyEntries (stateFailed n) = []"
  "historyEntries (stateCached n) = []"
  by (simp_all add: historyEntries_def stateWithData_def stateInFlight_def stateFailed_def
      stateCached_def)

lemma history_ok_examples:
  "history_ok stateWithData"
  "history_ok stateInFlight"
  "history_ok (stateFailed n)"
  "history_ok (stateCached n)"
  by (simp_all add: history_ok_def store_ok_def historyEntries_def stateWithData_def
      stateInFlight_def stateFailed_def stateCached_def)

section \<open>C1: a new request while data is available\<close>

text \<open>
  C1, as amended. Take a destination whose state has data (\<open>success\<close>,
  \<open>stale-while-revalidate\<close> or \<open>stale-with-error\<close>) and whose parameters still resolve to
  its request key. A new request for that key moves it to \<open>stale-while-revalidate\<close> and
  never to \<open>loading\<close>: for \<open>kickoff\<close> when a fetch starts (forced, or no fresh cache
  entry), where exactly one fetch is started, for the controller's \<open>refresh\<close> and \<open>retry\<close>,
  and for the retry timer with listeners. A change of the request key is different: with
  history enabled, \<open>handleRequestKeyChange\<close> for a new available key publishes a
  \<open>loading\<close> snapshot, and \<open>kickoff\<close> for such a key without a fresh cache entry ends in
  \<open>loading\<close>, whatever the state was before.
\<close>

theorem same_key_request_with_data_is_stale_while_revalidate:
  assumes "hasData (currentState s)"
    and "resolveKey cfg env = requestKey s" and "requestKey s = Some key"
  shows
    "(forceRefetch \<or> cached env = None \<longrightarrow>
        type_of (currentState (kickoff cfg env forceRefetch s)) = ''stale-while-revalidate''
      \<and> fetches (trace (kickoff cfg env forceRefetch s)) =
          fetches (trace s) @ [(Some (nextHandle s), Some key)])
   \<and> (f = Some True \<or> cached env = None \<longrightarrow>
        type_of (currentState (controller_refresh cfg env f s)) = ''stale-while-revalidate''
      \<and> type_of (currentState (controller_retry cfg env f s)) = ''stale-while-revalidate'')
   \<and> (listenerCount s \<noteq> 0 \<longrightarrow>
        type_of (currentState (executeRetry cfg env key s)) = ''stale-while-revalidate'')
   \<and> \<not> isLoading (currentState (kickoff cfg env forceRefetch s))
   \<and> (historySize s \<noteq> 0 \<and> truthy newKey \<and> resolveKey cfg env' = newKey
        \<and> newKey \<noteq> requestKey s \<and> cached env' = None \<longrightarrow>
        type_of (currentState (kickoff cfg env' False s)) = ''loading'')
   \<and> (historySize s \<noteq> 0 \<and> truthy newKey \<and> resolveKey cfg env' = newKey \<longrightarrow>
        PublishState \<lparr>a_state = Loading (now env') None, a_requestKey = newKey,
                       a_hasListeners = (0 < listenerCount s),
                       a_history = nextAddr (keyChanged env' newKey s)\<rparr>
          \<in> set (trace (handleRequestKeyChange cfg env' oldKey newKey s)))"
proof -
  have same: "\<And>f. type_of (currentState (kickoff cfg env f s)) =
      (if \<not> f \<and> cached env \<noteq> None then ''success'' else ''stale-while-revalidate'')"
    using assms by (simp add: kickoff_same_key_type)
  have fetch: "\<And>f. f \<or> cached env = None \<Longrightarrow>
      fetches (trace (kickoff cfg env f s)) = fetches (trace s) @ [(Some (nextHandle s), Some key)]"
    using assms by (auto simp: kickoff_same_key_fetches)
  have retry: "f = Some True \<or> cached env = None \<Longrightarrow>
      type_of (currentState (controller_retry cfg env f s)) = ''stale-while-revalidate''"
    using assms
    by (auto simp: controller_retry_eq kickoff_same_key_type split: option.splits)
  have timer: "listenerCount s \<noteq> 0 \<Longrightarrow>
      type_of (currentState (executeRetry cfg env key s)) = ''stale-while-revalidate''"
    using assms by (simp add: executeRetry_listening same)
  have change: "historySize s \<noteq> 0 \<Longrightarrow> truthy newKey \<Longrightarrow> resolveKey cfg env' = newKey \<Longrightarrow>
      newKey \<noteq> requestKey s \<Longrightarrow> cached env' = None \<Longrightarrow>
      type_of (currentState (kickoff cfg env' False s)) = ''loading''"
  proof -
    assume h: "historySize s \<noteq> 0" "truthy newKey" "resolveKey cfg env' = newKey"
      "newKey \<noteq> requestKey s" "cached env' = None"
    from h(2) have nn: "newKey \<noteq> None" by (rule truthy_not_None)
    have "kickoff cfg env' False s =
        kickoff cfg env' False
          (addHistoryEntry env' (Loading (now env') None) (Some ''request_initiated'')
             (keyChanged env' newKey (kickoff_begin env' s)))"
      using h by (simp add: kickoff_key_change)
    then show ?thesis
      using h nn by (simp add: kickoff_same_key_type)
  qed
  have publishes: "historySize s \<noteq> 0 \<Longrightarrow> truthy newKey \<Longrightarrow> resolveKey cfg env' = newKey \<Longrightarrow>
      PublishState \<lparr>a_state = Loading (now env') None, a_requestKey = newKey,
                     a_hasListeners = (0 < listenerCount s),
                     a_history = nextAddr (keyChanged env' newKey s)\<rparr>
        \<in> set (trace (handleRequestKeyChange cfg env' oldKey newKey s))"
  proof -
    assume h: "historySize s \<noteq> 0" "truthy newKey" "resolveKey cfg env' = newKey"
    let ?inner = "addHistoryEntry env' (Loading (now env') None) (Some ''request_initiated'')
                    (keyChanged env' newKey s)"
    have "PublishState \<lparr>a_state = Loading (now env') None, a_requestKey = newKey,
                     a_hasListeners = (0 < listenerCount s),
                     a_history = nextAddr (keyChanged env' newKey s)\<rparr> \<in> set (trace ?inner)"
      using h(1) by (simp add: addHistoryEntry_trace)
    then have "PublishState \<lparr>a_state = Loading (now env') None, a_requestKey = newKey,
                     a_hasListeners = (0 < listenerCount s),
                     a_history = nextAddr (keyChanged env' newKey s)\<rparr>
        \<in> set (trace (kickoff cfg env' False ?inner))"
      using h(3) by (simp add: trace_grows_kickoff_same_key)
    then show ?thesis
      using h(2) by (simp add: handleRequestKeyChange_eq)
  qed
  show ?thesis
    using same fetch retry timer change publishes
    by (simp add: isLoading_def controller_refresh_eq)
qed

theorem same_key_request_with_data_witness:
  "hasData (currentState stateWithData)
   \<and> resolveKey exampleConfig (exampleEnv 800 ''A'') = requestKey stateWithData
   \<and> type_of (currentState (kickoff exampleConfig (exampleEnv 800 ''A'') False stateWithData))
       = ''stale-while-revalidate''
   \<and> fetches (trace (kickoff exampleConfig (exampleEnv 800 ''A'') False stateWithData))
       = [(Some 1, Some ''A'')]
   \<and> type_of (currentState
        (controller_refresh exampleConfig (exampleEnv 800 ''A'') None stateWithData))
       = ''stale-while-revalidate''
   \<and> type_of (currentState
        (controller_retry exampleConfig (exampleEnv 800 ''A'') None stateWithData))
       = ''stale-while-revalidate''
   \<and> type_of (currentState
        (executeRetry exampleConfig (exampleEnv 800 ''A'') ''A'' stateWithData))
       = ''stale-while-revalidate''
   \<and> type_of (currentState (kickoff exampleConfig (exampleEnv 800 ''B'') False stateWithData))
       = ''loading''
   \<and> PublishState \<lparr>a_state = Loading 800 None, a_requestKey = Some ''B'',
                     a_hasListeners = True, a_history = Suc (Suc 0)\<rparr>
       \<in> set (trace (handleRequestKeyChange exampleConfig (exampleEnv 800 ''B'')
                       (Some ''A'') (Some ''B'') stateWithData))"
  using same_key_request_with_data_is_stale_while_revalidate
    [of stateWithData exampleConfig "exampleEnv 800 ''A''" "''A''" False None
        "Some ''B''" "exampleEnv 800 ''B''" "Some ''A''"]
  by (simp add: hasData_def truthy_def keyChanged_nextAddr)

text \<open>
  The claim as stated fails at a change of the request key: the destination is in
  \<open>success\<close> for key \<open>A\<close>, its parameters change to key \<open>B\<close>, and the new request is
  started (one fetch, for \<open>B\<close>) with the destination in \<open>loading\<close>.
  \<open>handleRequestKeyChange\<close> itself publishes the \<open>loading\<close> snapshot.
\<close>

theorem key_change_with_data_enters_loading:
  "type_of (currentState stateWithData) = ''success''
   \<and> type_of (currentState (kickoff exampleConfig (exampleEnv 50 ''B'') False stateWithData))
       = ''loading''
   \<and> fetches (trace (kickoff exampleConfig (exampleEnv 50 ''B'') False stateWithData))
       = [(Some 2, Some ''B'')]
   \<and> type_of (currentState (handleRequestKeyChange exampleConfig (exampleEnv 50 ''B'')
        (Some ''A'') (Some ''B'') stateWithData)) = ''loading''
   \<and> PublishState \<lparr>a_state = Loading 50 None, a_requestKey = Some ''B'',
                     a_hasListeners = True, a_history = 2\<rparr>
       \<in> set (trace (handleRequestKeyChange exampleConfig (exampleEnv 50 ''B'')
                       (Some ''A'') (Some ''B'') stateWithData))"
proof -
  let ?env = "exampleEnv 50 ''B''"
  let ?s' = "addHistoryEntry ?env (Loading (now ?env) None) (Some ''request_initiated'')
               (keyChanged ?env (Some ''B'') stateWithData)"
  have h: "handleRequestKeyChange exampleConfig ?env (Some ''A'') (Some ''B'') stateWithData =
      kickoff exampleConfig ?env False ?s'"
    by (simp add: handleRequestKeyChange_eq truthy_def)
  have k: "type_of (currentState (kickoff exampleConfig ?env False stateWithData)) = ''loading''"
    by (simp add: kickoff_key_change truthy_def kickoff_same_key_type)
  have kf: "fetches (trace (kickoff exampleConfig ?env False stateWithData)) =
      [(Some 2, Some ''B'')]"
    by (simp add: kickoff_key_change_fetches truthy_def)
  have t: "type_of (currentState (kickoff exampleConfig ?env False ?s')) = ''loading''"
    by (simp add: kickoff_same_key_type)
  have "PublishState \<lparr>a_state = Loading 50 None, a_requestKey = Some ''B'',
                       a_hasListeners = True, a_history = 2\<rparr> \<in> set (trace ?s')"
    by (simp add: addHistoryEntry_trace keyChanged_nextAddr)
  then have p: "PublishState \<lparr>a_state = Loading 50 None, a_requestKey = Some ''B'',
                       a_hasListeners = True, a_history = 2\<rparr>
      \<in> set (trace (kickoff exampleConfig ?env False ?s'))"
    by (rule trace_grows_kickoff_same_key [rotated]) simp
  show ?thesis
    using t k kf p by (simp add: h)
qed

section \<open>C2: transitions with history disabled\<close>

text \<open>
  C2, the code at the failing input. The claim asks that every transition updates
  \<open>currentState\<close> and emits a snapshot also when \<open>historySize = 0\<close>. In
  \<open>addHistoryEntry\<close> the test \<open>historySize === 0\<close> returns before the state is set and
  published: on a fresh destination with history disabled, the transition to \<open>loading\<close>
  leaves \<open>currentState\<close> at \<open>idle\<close> and publishes nothing, while with \<open>historySize = 10\<close>
  the same call sets \<open>loading\<close> and publishes one snapshot.
\<close>

theorem addHistoryEntry_disabled_history_skips_transition:
  "currentState (addHistoryEntry (exampleEnv 50 ''A'') (Loading 50 None)
      (Some ''request_initiated'') (initialDestState 0)) = Idle None
   \<and> trace (addHistoryEntry (exampleEnv 50 ''A'') (Loading 50 None)
      (Some ''request_initiated'') (initialDestState 0)) = []
   \<and> currentState (addHistoryEntry (exampleEnv 50 ''A'') (Loading 50 None)
      (Some ''request_initiated'') (initialDestState 10)) = Loading 50 None
   \<and> trace (addHistoryEntry (exampleEnv 50 ''A'') (Loading 50 None)
      (Some ''request_initiated'') (initialDestState 10)) =
       [PublishState \<lparr>a_state = Loading 50 None, a_requestKey = None,
                       a_hasListeners = False, a_history = 1\<rparr>]"
  by (simp add: addHistoryEntry_trace)

section \<open>C3: the controller of a destination without listeners\<close>

text \<open>
  C3, as amended. When a disconnect of an output grip leaves a destination without
  listeners and a controller grip is configured, the destination's controller is cleared
  and the controller then published is the no-op object (published when the tap is
  attached); every method of the no-op object returns the state it was called in, so it
  changes nothing and starts no work. A connect of a grip that is not an output grip
  (the state grip or the controller grip) does not count as a listener, yet it creates
  the live controller and publishes it.
\<close>

theorem noop_controller_after_last_listener:
  "(isOutputGrip cfg g \<and> listenerCount s \<le> 1 \<and> controllerGrip cfg \<noteq> None \<longrightarrow>
      listenerCount (onDisconnect cfg g s) = 0
    \<and> controller (onDisconnect cfg g s) = None
    \<and> publishedControllers (trace (onDisconnect cfg g s)) =
        publishedControllers (trace s) @ (if attached cfg then [NoOpController] else []))
   \<and> invoke cfg env NoOpController c t = t
   \<and> (\<not> isOutputGrip cfg g' \<and> controllerGrip cfg \<noteq> None \<and> controller s' = None \<longrightarrow>
      listenerCount (onConnect cfg env g' s') = listenerCount s'
    \<and> controller (onConnect cfg env g' s') = Some LiveController
    \<and> publishedControllers (trace (onConnect cfg env g' s')) =
        publishedControllers (trace s') @ (if attached cfg then [LiveController] else []))"
  using onDisconnect_last_listener [of cfg g s] onConnect_metadata_grip [of cfg g' s' env]
  by simp

theorem noop_controller_witness:
  "isOutputGrip exampleConfig ''UserData''
   \<and> listenerCount stateWithData \<le> 1
   \<and> controllerGrip exampleConfig \<noteq> None
   \<and> controller (onDisconnect exampleConfig ''UserData'' stateWithData) = None
   \<and> publishedControllers (trace (onDisconnect exampleConfig ''UserData'' stateWithData))
       = [NoOpController]
   \<and> invoke exampleConfig (exampleEnv 0 ''42'') NoOpController (Retry None)
        (onDisconnect exampleConfig ''UserData'' stateWithData)
       = onDisconnect exampleConfig ''UserData'' stateWithData
   \<and> \<not> isOutputGrip exampleConfig ''UserDataState''
   \<and> controller (initialDestState 10) = None
   \<and> publishedControllers (trace (onConnect exampleConfig (exampleEnv 0 ''42'')
        ''UserDataState'' (initialDestState 10))) = [LiveController]"
  using noop_controller_after_last_listener
    [of exampleConfig "''UserData''" stateWithData "exampleEnv 0 ''42''" "Retry None"
        "onDisconnect exampleConfig ''UserData'' stateWithData" "''UserDataState''"
        "initialDestState 10"]
  by simp

text \<open>
  The claim as stated fails for a destination that is connected through the state grip
  only: it has no listeners, the controller published to it is the live one, and a call
  of its \<open>retry\<close> starts a fetch.
\<close>

theorem metadata_grip_gets_live_controller:
  "listenerCount (onConnect exampleConfig (exampleEnv 0 ''42'') ''UserDataState''
      (initialDestState 10)) = 0
   \<and> publishedControllers (trace (onConnect exampleConfig (exampleEnv 0 ''42'')
        ''UserDataState'' (initialDestState 10))) = [LiveController]
   \<and> fetches (trace (onConnect exampleConfig (exampleEnv 0 ''42'') ''UserDataState''
        (initialDestState 10))) = []
   \<and> fetches (trace (invoke exampleConfig (exampleEnv 10 ''42'') LiveController (Retry None)
        (onConnect exampleConfig (exampleEnv 0 ''42'') ''UserDataState''
           (initialDestState 10)))) = [(Some 2, Some ''42'')]"
proof -
  let ?s = "onConnect exampleConfig (exampleEnv 0 ''42'') ''UserDataState'' (initialDestState 10)"
  have pub: "publishedControllers (trace ?s) = [LiveController]"
    using onConnect_metadata_grip(3)
      [of exampleConfig "''UserDataState''" "initialDestState 10" "exampleEnv 0 ''42''"]
    by simp
  have "fetches (trace (controller_retry exampleConfig (exampleEnv 10 ''42'') None ?s)) =
      [(Some 2, Some ''42'')]"
    by (simp add: controller_retry_eq kickoff_key_change_fetches truthy_def)
  then show ?thesis
    using pub by simp
qed

section \<open>C4: a timer that fires without listeners\<close>

text \<open>
  C4, as amended. When the retry timer (\<open>executeRetry\<close>) or the refresh timer
  (\<open>executeRefresh\<close>) fires on a destination whose \<open>listenerCount\<close> is 0: no fetch is
  started and no timer is armed, the timer is set to \<open>null\<close>, \<open>retryAt\<close> is set to
  \<open>null\<close> on the current state, which is otherwise unchanged, and one state snapshot is
  published. The retry timer leaves the history buffer as it was: no entry is recorded.
  The refresh timer records an entry with the reason \<open>listener_unsubscribed\<close> unless the
  history already holds one (or is disabled).
\<close>

theorem timer_fires_without_listeners:
  assumes "listenerCount s = 0"
  shows "fetches (trace (executeRetry cfg env key s)) = fetches (trace s)
    \<and> timersArmed (trace (executeRetry cfg env key s)) = timersArmed (trace s)
    \<and> retryTimer (executeRetry cfg env key s) = None
    \<and> currentState (executeRetry cfg env key s) = with_retryAt (currentState s) None
    \<and> retryAt (currentState (executeRetry cfg env key s)) = None
    \<and> trace (executeRetry cfg env key s) =
        trace s @ [PublishState \<lparr>a_state = with_retryAt (currentState s) None,
                     a_requestKey = requestKey s, a_hasListeners = False,
                     a_history = nextAddr s\<rparr>]
    \<and> historyEntries (executeRetry cfg env key s) = historyEntries s
    \<and> fetches (trace (executeRefresh cfg env key s)) = fetches (trace s)
    \<and> timersArmed (trace (executeRefresh cfg env key s)) = timersArmed (trace s)
    \<and> refreshTimer (executeRefresh cfg env key s) = None
    \<and> currentState (executeRefresh cfg env key s) = with_retryAt (currentState s) None
    \<and> retryAt (currentState (executeRefresh cfg env key s)) = None
    \<and> trace (executeRefresh cfg env key s) =
        trace s @ [PublishState \<lparr>a_state = with_retryAt (currentState s) None,
                     a_requestKey = requestKey s, a_hasListeners = False,
                     a_history = nextAddr s\<rparr>]
    \<and> (list_ex (\<lambda>e. h_transitionReason e = Some ''listener_unsubscribed'') (historyEntries s)
          \<or> historySize s = 0 \<longrightarrow>
        historyEntries (executeRefresh cfg env key s) = historyEntries s)
    \<and> (history_ok s \<and> historySize s \<noteq> 0
          \<and> \<not> list_ex (\<lambda>e. h_transitionReason e = Some ''listener_unsubscribed'')
                (historyEntries s) \<longrightarrow>
        historyEntries (executeRefresh cfg env key s) =
          keepLast (historySize s)
            (historyEntries s @
             [\<lparr>h_state = currentState s, h_timestamp = now env, h_requestKey = requestKey s,
               h_transitionReason = Some ''listener_unsubscribed''\<rparr>]))"
proof -
  have retry: "fetches (trace (executeRetry cfg env key s)) = fetches (trace s)
    \<and> timersArmed (trace (executeRetry cfg env key s)) = timersArmed (trace s)
    \<and> retryTimer (executeRetry cfg env key s) = None
    \<and> currentState (executeRetry cfg env key s) = with_retryAt (currentState s) None
    \<and> retryAt (currentState (executeRetry cfg env key s)) = None
    \<and> trace (executeRetry cfg env key s) =
        trace s @ [PublishState \<lparr>a_state = with_retryAt (currentState s) None,
                     a_requestKey = requestKey s, a_hasListeners = False,
                     a_history = nextAddr s\<rparr>]
    \<and> historyEntries (executeRetry cfg env key s) = historyEntries s"
    using assms
    by (simp add: executeRetry_no_listeners snapshot_def historyEntries_def)
  have before: "list_ex (\<lambda>e. h_transitionReason e = Some ''listener_unsubscribed'')
        (historyEntries s) \<or> historySize s = 0 \<Longrightarrow>
      historyEntries (executeRefresh cfg env key s) = historyEntries s"
    using assms by (rule executeRefresh_recorded_before)
  have records: "history_ok s \<Longrightarrow> historySize s \<noteq> 0 \<Longrightarrow>
      \<not> list_ex (\<lambda>e. h_transitionReason e = Some ''listener_unsubscribed'')
          (historyEntries s) \<Longrightarrow>
      historyEntries (executeRefresh cfg env key s) =
        keepLast (historySize s)
          (historyEntries s @
           [\<lparr>h_state = currentState s, h_timestamp = now env, h_requestKey = requestKey s,
             h_transitionReason = Some ''listener_unsubscribed''\<rparr>])"
    using assms by (simp add: executeRefresh_records history_ok_def)
  show ?thesis
    using retry before records executeRefresh_no_listeners [OF assms, of cfg env key]
    by simp
qed

theorem timer_fires_without_listeners_witness:
  "listenerCount (stateFailed 0) = 0
   \<and> retryTimer (stateFailed 0) = Some 1
   \<and> retryTimer (executeRetry exampleConfig (exampleEnv 150 ''A'') ''A'' (stateFailed 0)) = None
   \<and> currentState (executeRetry exampleConfig (exampleEnv 150 ''A'') ''A'' (stateFailed 0))
       = Error ''HTTP 500'' 50 None
   \<and> fetches (trace (executeRetry exampleConfig (exampleEnv 150 ''A'') ''A'' (stateFailed 0)))
       = []
   \<and> trace (executeRetry exampleConfig (exampleEnv 150 ''A'') ''A'' (stateFailed 0)) =
       [PublishState \<lparr>a_state = Error ''HTTP 500'' 50 None, a_requestKey = Some ''A'',
                       a_hasListeners = False, a_history = 1\<rparr>]
   \<and> listenerCount (stateCached 0) = 0
   \<and> refreshTimer (stateCached 0) = Some 1
   \<and> history_ok (stateCached 0)
   \<and> historySize (stateCached 0) \<noteq> 0
   \<and> historyEntries (stateCached 0) = []
   \<and> refreshTimer (executeRefresh exampleConfig (exampleEnv 295000 ''A'') ''A''
        (stateCached 0)) = None
   \<and> currentState (executeRefresh exampleConfig (exampleEnv 295000 ''A'') ''A''
        (stateCached 0)) = Success 0 None
   \<and> fetches (trace (executeRefresh exampleConfig (exampleEnv 295000 ''A'') ''A''
        (stateCached 0))) = []
   \<and> trace (executeRefresh exampleConfig (exampleEnv 295000 ''A'') ''A'' (stateCached 0)) =
       [PublishState \<lparr>a_state = Success 0 None, a_requestKey = Some ''A'',
                       a_hasListeners = False, a_history = 1\<rparr>]
   \<and> historyEntries (executeRefresh exampleConfig (exampleEnv 295000 ''A'') ''A''
        (stateCached 0))
       = [\<lparr>h_state = Success 0 (Some (Finite 295000)), h_timestamp = 295000,
            h_requestKey = Some ''A'',
            h_transitionReason = Some ''listener_unsubscribed''\<rparr>]
   \<and> listenerCount (executeRefresh exampleConfig (exampleEnv 295000 ''A'') ''A''
        (stateCached 0)) = 0
   \<and> historyEntries (executeRefresh exampleConfig (exampleEnv 295001 ''A'') ''A''
        (executeRefresh exampleConfig (exampleEnv 295000 ''A'') ''A'' (stateCached 0)))
       = [\<lparr>h_state = Success 0 (Some (Finite 295000)), h_timestamp = 295000,
            h_requestKey = Some ''A'',
            h_transitionReason = Some ''listener_unsubscribed''\<rparr>]"
proof -
  let ?s = "executeRefresh exampleConfig (exampleEnv 295000 ''A'') ''A'' (stateCached 0)"
  have first: "historyEntries ?s =
      [\<lparr>h_state = Success 0 (Some (Finite 295000)), h_timestamp = 295000,
         h_requestKey = Some ''A'',
         h_transitionReason = Some ''listener_unsubscribed''\<rparr>]"
    using timer_fires_without_listeners
      [of "stateCached 0" exampleConfig "exampleEnv 295000 ''A''" "''A''"]
    by (simp add: history_ok_examples historyEntries_examples keepLast_def)
  have none: "listenerCount ?s = 0"
    by (simp add: executeRefresh_no_listeners)
  have again: "historyEntries (executeRefresh exampleConfig (exampleEnv 295001 ''A'') ''A'' ?s) =
      historyEntries ?s"
    using timer_fires_without_listeners
      [of ?s exampleConfig "exampleEnv 295001 ''A''" "''A''"] none
    by (simp add: first)
  show ?thesis
    using first none again
      timer_fires_without_listeners
        [of "stateFailed 0" exampleConfig "exampleEnv 150 ''A''" "''A''"]
      timer_fires_without_listeners
        [of "stateCached 0" exampleConfig "exampleEnv 295000 ''A''" "''A''"]
    by (simp add: history_ok_examples historyEntries_examples)
qed

text \<open>
  The claim as stated fails on the history entry: the destination has no listeners, its
  history is enabled and holds no \<open>listener_unsubscribed\<close> entry, and after the timer
  fired the history is still empty.
\<close>

theorem executeRetry_records_no_history_entry:
  "listenerCount (stateFailed 0) = 0
   \<and> historySize (stateFailed 0) = 10
   \<and> historyEntries (stateFailed 0) = []
   \<and> historyEntries (executeRetry exampleConfig (exampleEnv 150 ''A'') ''A'' (stateFailed 0))
       = []
   \<and> filter (\<lambda>e. h_transitionReason e = Some ''listener_unsubscribed'')
        (historyEntries (executeRetry exampleConfig (exampleEnv 150 ''A'') ''A''
           (stateFailed 0))) = []"
  by (simp add: executeRetry_no_listeners historyEntries_def)

section \<open>C5: exponential backoff\<close>

text \<open>
  C5. At or above the retry budget (\<open>attempt >= maxRetries\<close>) \<open>calculateRetryTime\<close>
  produces no retry time; below it the retry time is the base time, which is the clock
  reading \<open>now\<close> by default, plus \<open>min(maxDelayMs, initialDelayMs * backoffMultiplier ^
  attempt)\<close>, computed in the arithmetic of numbers. When the options, the base time and
  the intermediate results are integers of magnitude up to \<open>2 ^ 53\<close>, that arithmetic is
  exact and the retry time is the integer \<open>now + min(maxDelayMs, initialDelayMs *
  backoffMultiplier ^ attempt)\<close>. With \<open>maxRetries = 0\<close> no retry time is produced at any
  attempt, so not at the first failure. Unset options take the defaults 3, 1000, 2 and
  30000. The scheduler arms the retry timer for the time computed and records it as
  \<open>retryAt\<close>; when no retry time is produced it arms no timer and \<open>retryAt\<close> is \<open>null\<close>.
\<close>

theorem calculateRetryTime_backoff:
  "(number_ge (Finite (of_nat attempt)) (nullish (maxRetries config) (Finite 3)) \<longrightarrow>
      calculateRetryTime clock attempt config baseTime = None)
   \<and> (\<not> number_ge (Finite (of_nat attempt)) (nullish (maxRetries config) (Finite 3)) \<longrightarrow>
      calculateRetryTime clock attempt config baseTime =
        Some (number_add (nullish baseTime (Finite (of_int clock)))
                (number_min (nullish (maxDelayMs config) (Finite 30000))
                   (number_mul (nullish (initialDelayMs config) (Finite 1000))
                      (number_pow (nullish (backoffMultiplier config) (Finite 2)) attempt)))))
   \<and> (nullish (maxRetries config) (Finite 3) = Finite (of_int M)
       \<and> nullish (initialDelayMs config) (Finite 1000) = Finite (of_int I)
       \<and> nullish (backoffMultiplier config) (Finite 2) = Finite (of_int B)
       \<and> nullish (maxDelayMs config) (Finite 30000) = Finite (of_int D)
       \<and> nullish baseTime (Finite (of_int clock)) = Finite (of_int T)
       \<and> \<bar>B ^ attempt\<bar> \<le> 2 ^ 53 \<and> \<bar>I * B ^ attempt\<bar> \<le> 2 ^ 53
       \<and> \<bar>T + min D (I * B ^ attempt)\<bar> \<le> 2 ^ 53 \<longrightarrow>
      calculateRetryTime clock attempt config baseTime =
        (if int attempt < M then Some (Finite (of_int (T + min D (I * B ^ attempt))))
         else None))
   \<and> (maxRetries config = Some (Finite 0) \<longrightarrow>
      calculateRetryTime clock attempt config baseTime = None)
   \<and> (0 < listenerCount s
       \<and> calculateRetryTime (now env) (retryAttempt s) (retry cfg) None = Some t \<longrightarrow>
      timersArmed (trace (scheduleRetry cfg env s)) = timersArmed (trace s) @ [(nextHandle s, t)]
      \<and> retryAt (currentState (scheduleRetry cfg env s)) = Some t
      \<and> retryAttempt (scheduleRetry cfg env s) = retryAttempt s + 1)
   \<and> (calculateRetryTime (now env) (retryAttempt s) (retry cfg) None = None \<longrightarrow>
      timersArmed (trace (scheduleRetry cfg env s)) = timersArmed (trace s)
      \<and> retryAt (currentState (scheduleRetry cfg env s)) = None
      \<and> retryAttempt (scheduleRetry cfg env s) = retryAttempt s)"
proof -
  have exact: "calculateRetryTime clock attempt config baseTime =
      (if int attempt < M then Some (Finite (of_int (T + min D (I * B ^ attempt)))) else None)"
    if c: "nullish (maxRetries config) (Finite 3) = Finite (of_int M)"
      "nullish (initialDelayMs config) (Finite 1000) = Finite (of_int I)"
      "nullish (backoffMultiplier config) (Finite 2) = Finite (of_int B)"
      "nullish (maxDelayMs config) (Finite 30000) = Finite (of_int D)"
      "nullish baseTime (Finite (of_int clock)) = Finite (of_int T)"
      and b: "\<bar>B ^ attempt\<bar> \<le> 2 ^ 53" "\<bar>I * B ^ attempt\<bar> \<le> 2 ^ 53"
        "\<bar>T + min D (I * B ^ attempt)\<bar> \<le> 2 ^ 53"
  proof -
    have p: "number_pow (Finite (of_int B)) attempt = Finite (of_int (B ^ attempt))"
      using b(1) by (rule number_pow_int)
    have m: "number_mul (Finite (of_int I)) (Finite (of_int (B ^ attempt))) =
        Finite (of_int (I * B ^ attempt))"
      using b(2) by (rule number_mul_int)
    have mn: "number_min (Finite (of_int (I * B ^ attempt))) (Finite (of_int D)) =
        Finite (of_int (min D (I * B ^ attempt)))"
      by (simp only: number_min_int min.commute)
    have a: "number_add (Finite (of_int T)) (Finite (of_int (min D (I * B ^ attempt)))) =
        Finite (of_int (T + min D (I * B ^ attempt)))"
      using b(3) by (rule number_add_int)
    show ?thesis
      unfolding calculateRetryTime_def Let_def c p m mn a number_ge_int
      by (simp add: not_le)
  qed
  have zero: "calculateRetryTime clock attempt config baseTime = None"
    if "maxRetries config = Some (Finite 0)"
    using that number_ge_int [of attempt 0]
    by (simp add: calculateRetryTime_def nullish_def)
  have sched: "timersArmed (trace (scheduleRetry cfg env s)) =
        timersArmed (trace s) @ [(nextHandle s, t)]
      \<and> retryAt (currentState (scheduleRetry cfg env s)) = Some t
      \<and> retryAttempt (scheduleRetry cfg env s) = retryAttempt s + 1"
    if "0 < listenerCount s"
      "calculateRetryTime (now env) (retryAttempt s) (retry cfg) None = Some t"
    using scheduleRetry_scheduled [OF that] by simp
  have nosched: "timersArmed (trace (scheduleRetry cfg env s)) = timersArmed (trace s)
      \<and> retryAt (currentState (scheduleRetry cfg env s)) = None
      \<and> retryAttempt (scheduleRetry cfg env s) = retryAttempt s"
    if "calculateRetryTime (now env) (retryAttempt s) (retry cfg) None = None"
    using scheduleRetry_not_scheduled [of s env cfg] that by simp
  show ?thesis
    using exact zero sched nosched
    by (simp add: calculateRetryTime_def Let_def number_min_commute)
qed

theorem calculateRetryTime_backoff_witness:
  "nullish (maxRetries (retry exampleConfig)) (Finite 3) = Finite (of_int 3)
   \<and> nullish (initialDelayMs (retry exampleConfig)) (Finite 1000) = Finite (of_int 1000)
   \<and> nullish (backoffMultiplier (retry exampleConfig)) (Finite 2) = Finite (of_int 2)
   \<and> nullish (maxDelayMs (retry exampleConfig)) (Finite 30000) = Finite (of_int 30000)
   \<and> \<bar>(1000::int) * 2 ^ 2\<bar> \<le> 2 ^ 53
   \<and> calculateRetryTime 50 2 (retry exampleConfig) None = Some (Finite 4050)
   \<and> calculateRetryTime 50 3 (retry exampleConfig) None = None
   \<and> calculateRetryTime 50 0 ((retry exampleConfig)\<lparr>maxRetries := Some (Finite 0)\<rparr>) None
       = None
   \<and> 0 < listenerCount (stateFailed 1)
   \<and> retryAttempt (stateFailed 1) = 2
   \<and> timersArmed (trace (scheduleRetry exampleConfig (exampleEnv 50 ''A'') (stateFailed 1)))
       = [(2, Finite 4050)]
   \<and> retryAt (currentState (scheduleRetry exampleConfig (exampleEnv 50 ''A'') (stateFailed 1)))
       = Some (Finite 4050)
   \<and> retryAttempt (scheduleRetry exampleConfig (exampleEnv 50 ''A'') (stateFailed 1)) = 3
   \<and> timersArmed (trace (scheduleRetry exampleConfig (exampleEnv 50 ''A'')
        ((stateFailed 1)\<lparr>retryAttempt := 3\<rparr>))) = []
   \<and> retryAt (currentState (scheduleRetry exampleConfig (exampleEnv 50 ''A'')
        ((stateFailed 1)\<lparr>retryAttempt := 3\<rparr>))) = None
   \<and> retryAttempt (scheduleRetry exampleConfig (exampleEnv 50 ''A'')
        ((stateFailed 1)\<lparr>retryAttempt := 3\<rparr>)) = 3"
proof -
  have t: "calculateRetryTime 50 2 (retry exampleConfig) None = Some (Finite 4050)"
    using calculateRetryTime_backoff
      [of 2 "retry exampleConfig" 50 None 3 1000 2 30000 50]
    by (simp add: nullish_def)
  have n: "calculateRetryTime 50 3 (retry exampleConfig) None = None"
    using calculateRetryTime_backoff
      [of 3 "retry exampleConfig" 50 None 3 1000 2 30000 50]
    by (simp add: nullish_def)
  have z: "calculateRetryTime 50 0 ((retry exampleConfig)\<lparr>maxRetries := Some (Finite 0)\<rparr>) None
      = None"
    using calculateRetryTime_backoff
      [of 0 "(retry exampleConfig)\<lparr>maxRetries := Some (Finite 0)\<rparr>" 50 None]
    by simp
  have s: "timersArmed (trace (scheduleRetry exampleConfig (exampleEnv 50 ''A'') (stateFailed 1)))
        = [(2, Finite 4050)]
      \<and> retryAt (currentState (scheduleRetry exampleConfig (exampleEnv 50 ''A'') (stateFailed 1)))
        = Some (Finite 4050)
      \<and> retryAttempt (scheduleRetry exampleConfig (exampleEnv 50 ''A'') (stateFailed 1)) = 3"
    using t calculateRetryTime_backoff
      [of _ _ _ _ _ _ _ _ _ "stateFailed 1" "exampleEnv 50 ''A''" exampleConfig "Finite 4050"]
    by simp
  have e: "timersArmed (trace (scheduleRetry exampleConfig (exampleEnv 50 ''A'')
        ((stateFailed 1)\<lparr>retryAttempt := 3\<rparr>))) = []
      \<and> retryAt (currentState (scheduleRetry exampleConfig (exampleEnv 50 ''A'')
        ((stateFailed 1)\<lparr>retryAttempt := 3\<rparr>))) = None
      \<and> retryAttempt (scheduleRetry exampleConfig (exampleEnv 50 ''A'')
        ((stateFailed 1)\<lparr>retryAttempt := 3\<rparr>)) = 3"
    using n calculateRetryTime_backoff
      [of _ _ _ _ _ _ _ _ _ "(stateFailed 1)\<lparr>retryAttempt := 3\<rparr>" "exampleEnv 50 ''A''"
          exampleConfig]
    by simp
  show ?thesis
    using t n z s e by (simp add: nullish_def)
qed

section \<open>C6: who increments the retry attempt\<close>

text \<open>
  C6. The controller's \<open>retry\<close> enters \<open>kickoff\<close> in a state whose \<open>retryAttempt\<close> is one
  more than before, and no fetch has been started until then; \<open>refresh\<close> enters
  \<open>kickoff\<close> in the state it was called in. While the parameters resolve to the
  destination's request key, \<open>retryAttempt\<close> after \<open>retry\<close> is one more than before,
  after \<open>refresh\<close> it is unchanged, and the retry timer's callback leaves it unchanged
  too: a scheduled retry is counted when it is scheduled, where \<open>retryAttempt\<close> grows by
  one exactly when a timer is armed.
\<close>

theorem manual_retry_increments_refresh_does_not:
  "(\<exists>s1. controller_retry cfg env f s = kickoff cfg env (f = Some True) s1
         \<and> retryAttempt s1 = retryAttempt s + 1 \<and> fetches (trace s1) = fetches (trace s))
   \<and> controller_refresh cfg env f s = kickoff cfg env (f = Some True) s
   \<and> (resolveKey cfg env = requestKey s \<longrightarrow>
         retryAttempt (controller_retry cfg env f s) = retryAttempt s + 1
       \<and> retryAttempt (controller_refresh cfg env f s) = retryAttempt s
       \<and> (listenerCount s \<noteq> 0 \<and> requestKey s = Some key \<longrightarrow>
            retryAttempt (executeRetry cfg env key s) = retryAttempt s))
   \<and> retryAttempt (scheduleRetry cfg env s) =
       retryAttempt s +
         (length (timersArmed (trace (scheduleRetry cfg env s))) - length (timersArmed (trace s)))"
proof -
  let ?s1 = "(cancelRetry (case abortController s of None \<Rightarrow> s
                | Some c \<Rightarrow> (emit (Abort c) s)\<lparr>abortController := None\<rparr>))
              \<lparr>retryAttempt := retryAttempt s + 1\<rparr>"
  have a: "controller_retry cfg env f s = kickoff cfg env (f = Some True) ?s1"
    by (rule controller_retry_eq)
  have b: "retryAttempt ?s1 = retryAttempt s + 1" by simp
  have c: "fetches (trace ?s1) = fetches (trace s)" by (simp split: option.splits)
  have d: "requestKey ?s1 = requestKey s" by (simp split: option.splits)
  have e: "resolveKey cfg env = requestKey s \<Longrightarrow>
      retryAttempt (controller_retry cfg env f s) = retryAttempt s + 1"
    using kickoff_same_key_retryAttempt [of cfg env ?s1 "f = Some True"] d
    by (simp only: a b)
  have g: "resolveKey cfg env = requestKey s \<Longrightarrow> listenerCount s \<noteq> 0 \<Longrightarrow>
      requestKey s = Some key \<Longrightarrow> retryAttempt (executeRetry cfg env key s) = retryAttempt s"
    by (simp add: executeRetry_listening kickoff_same_key_retryAttempt)
  from a b c have ex: "\<exists>s1. controller_retry cfg env f s = kickoff cfg env (f = Some True) s1
         \<and> retryAttempt s1 = retryAttempt s + 1 \<and> fetches (trace s1) = fetches (trace s)"
    by blast
  show ?thesis
    using ex e g
    by (simp add: controller_refresh_eq kickoff_same_key_retryAttempt
        scheduleRetry_attempt_timers)
qed

theorem manual_retry_increments_witness:
  "resolveKey exampleConfig (exampleEnv 900 ''A'') = requestKey (stateFailed 1)
   \<and> listenerCount (stateFailed 1) \<noteq> 0
   \<and> retryAttempt (stateFailed 1) = 2
   \<and> retryAttempt (controller_refresh exampleConfig (exampleEnv 900 ''A'') None (stateFailed 1))
       = 2
   \<and> retryAttempt (controller_retry exampleConfig (exampleEnv 900 ''A'') None (stateFailed 1))
       = 3
   \<and> retryAttempt (executeRetry exampleConfig (exampleEnv 900 ''A'') ''A'' (stateFailed 1))
       = 2"
  using manual_retry_increments_refresh_does_not
    [of exampleConfig "exampleEnv 900 ''A''" None "stateFailed 1" "''A''"]
  by (simp add: controller_refresh_eq)

section \<open>C7: a change of the request key\<close>




section \<open>C8: parameters without a request key\<close>

text \<open>
  C8. When the destination's parameters are resolved and \<open>getRequestKey\<close> returns \<open>null\<close>
  for them, the key change handling (which the retry timer's callback enters when the
  destination has listeners) leaves the destination in \<open>idle\<close> with \<open>retryAt = null\<close> and
  no request key, with no timer held, publishes exactly the reset values on the output
  grips, publishes the \<open>idle\<close> snapshot last, starts no fetch and arms no timer.
\<close>

theorem null_key_goes_idle_without_fetch:
  assumes "destinationParams env = Some p" and "getRequestKey cfg p = None"
  shows "resolveKey cfg env = None
       \<and> currentState (handleRequestKeyChange cfg env oldKey (resolveKey cfg env) s) = Idle None
       \<and> requestKey (handleRequestKeyChange cfg env oldKey (resolveKey cfg env) s) = None
       \<and> retryTimer (handleRequestKeyChange cfg env oldKey (resolveKey cfg env) s) = None
       \<and> refreshTimer (handleRequestKeyChange cfg env oldKey (resolveKey cfg env) s) = None
       \<and> fetches (trace (handleRequestKeyChange cfg env oldKey (resolveKey cfg env) s)) =
           fetches (trace s)
       \<and> timersArmed (trace (handleRequestKeyChange cfg env oldKey (resolveKey cfg env) s)) =
           timersArmed (trace s)
       \<and> publishedOutputs (trace (handleRequestKeyChange cfg env oldKey (resolveKey cfg env) s)) =
           publishedOutputs (trace s) @ getResetUpdates cfg p
       \<and> a_state (last (publishedStates
             (trace (handleRequestKeyChange cfg env oldKey (resolveKey cfg env) s)))) = Idle None
       \<and> (listenerCount s \<noteq> 0 \<longrightarrow>
            executeRetry cfg env key s =
              handleRequestKeyChange cfg env oldKey (resolveKey cfg env) s)"
proof -
  have none: "resolveKey cfg env = None"
    using assms by (simp add: resolveKey_def)
  have timer: "listenerCount s \<noteq> 0 \<Longrightarrow>
      executeRetry cfg env key s = handleRequestKeyChange cfg env oldKey None s"
    by (simp add: executeRetry_listening none handleRequestKeyChange_eq)
  show ?thesis
    using timer assms
    by (simp add: none handleRequestKeyChange_eq truthy_def resetToIdle_publishedStates)
qed

theorem null_key_goes_idle_witness:
  "destinationParams (exampleEnvNoKey 50) = Some []
   \<and> getRequestKey exampleConfig [] = None
   \<and> listenerCount stateWithData \<noteq> 0
   \<and> currentState (executeRetry exampleConfig (exampleEnvNoKey 50) ''A'' stateWithData)
       = Idle None
   \<and> currentState (handleRequestKeyChange exampleConfig (exampleEnvNoKey 50) (Some ''A'') None
        stateWithData) = Idle None
   \<and> fetches (trace (handleRequestKeyChange exampleConfig (exampleEnvNoKey 50) (Some ''A'') None
        stateWithData)) = []
   \<and> timersArmed (trace (handleRequestKeyChange exampleConfig (exampleEnvNoKey 50) (Some ''A'')
        None stateWithData)) = []
   \<and> publishedOutputs (trace (handleRequestKeyChange exampleConfig (exampleEnvNoKey 50)
        (Some ''A'') None stateWithData)) = [(''UserData'', ''default'')]"
  using null_key_goes_idle_without_fetch
    [of "exampleEnvNoKey 50" "[]" exampleConfig "Some ''A''" stateWithData "''A''"]
  by simp

section \<open>C9: the time of the TTL refresh\<close>


section \<open>C10: published snapshots are immutable\<close>

text \<open>
  C10. In a well-formed store, \<open>publishState\<close> publishes one snapshot whose history is a
  newly allocated array, distinct from the internal buffer, frozen, and with the
  entries of the buffer at that moment. Whatever events follow (connects, disconnects,
  kickoffs, timers, controller calls, writes that consumers attempt on arrays they were
  handed), that array keeps those entries, and so does every array published before; a
  \<open>push\<close>, a \<open>shift\<close> or an index assignment on the published array leaves it as it is.
  The store stays well formed, and it is well formed in every state that a sequence of
  events reaches from a new destination.
\<close>

theorem published_history_is_frozen_copy:
  assumes "store_ok s"
  shows "publishedStates (trace (publishState s)) =
           publishedStates (trace s) @
             [\<lparr>a_state = currentState s, a_requestKey = requestKey s,
               a_hasListeners = (0 < listenerCount s), a_history = nextAddr s\<rparr>]
       \<and> nextAddr s \<noteq> history (publishState s)
       \<and> arrays (publishState s) (nextAddr s) =
           \<lparr>elems = historyEntries s, frozen = True\<rparr>
       \<and> arrays (run cfg evs (publishState s)) (nextAddr s) =
           \<lparr>elems = historyEntries s, frozen = True\<rparr>
       \<and> (\<forall>a \<in> set (publishedHistories (trace s)).
            arrays (run cfg evs s) a = arrays s a \<and> frozen (arrays s a))
       \<and> array_push (arrays (publishState s) (nextAddr s)) e = arrays (publishState s) (nextAddr s)
       \<and> array_shift (arrays (publishState s) (nextAddr s)) = arrays (publishState s) (nextAddr s)
       \<and> array_assign (arrays (publishState s) (nextAddr s)) i e =
           arrays (publishState s) (nextAddr s)
       \<and> store_ok (run cfg evs (publishState s))
       \<and> store_ok (run cfg evs (initialDestState n))"
proof -
  have lt: "history s < nextAddr s"
    using assms by (simp add: store_ok_def)
  have copy: "arrays (publishState s) (nextAddr s) = \<lparr>elems = historyEntries s, frozen = True\<rparr>"
    by (simp add: frozen_copy_def historyEntries_def)
  have ok: "store_ok (publishState s)"
    using evolves_publishState_step [OF assms] by (rule evolves_store_ok)
  have run1: "evolves (publishState s) (run cfg evs (publishState s))"
    using ok by (simp add: evolves_run evolves_refl)
  then have keep: "arrays (run cfg evs (publishState s)) (nextAddr s) =
      arrays (publishState s) (nextAddr s)"
    using lt by (simp add: evolves_def)
  have run0: "evolves s (run cfg evs s)"
    using assms by (simp add: evolves_run evolves_refl)
  have old: "\<forall>a \<in> set (publishedHistories (trace s)).
      arrays (run cfg evs s) a = arrays s a \<and> frozen (arrays s a)"
    using run0 assms by (auto simp: evolves_def store_ok_def list_all_iff)
  show ?thesis
    using lt copy keep old run1
    by (simp add: snapshot_def array_push_def array_shift_def array_assign_def
        evolves_store_ok store_ok_run)
qed

theorem published_history_witness:
  "store_ok (onConnect exampleConfig (exampleEnv 0 ''42'') ''UserData'' (initialDestState 10))
   \<and> publishedHistories (trace (onConnect exampleConfig (exampleEnv 0 ''42'') ''UserData''
        (initialDestState 10))) = [1]
   \<and> arrays (run exampleConfig
        [(exampleEnv 10 ''42'', Produce),
         (exampleEnv 20 ''42'', ConsumerPush 1
            \<lparr>h_state = Idle None, h_timestamp = 20, h_requestKey = None,
             h_transitionReason = Some ''forged''\<rparr>),
         (exampleEnv 30 ''43'', Produce),
         (exampleEnv 40 ''43'', ControllerCall LiveController Reset)]
        (onConnect exampleConfig (exampleEnv 0 ''42'') ''UserData'' (initialDestState 10)))
        1 = \<lparr>elems = [], frozen = True\<rparr>
   \<and> arrays (run exampleConfig
        [(exampleEnv 10 ''42'', Produce),
         (exampleEnv 20 ''42'', ConsumerPush 1
            \<lparr>h_state = Idle None, h_timestamp = 20, h_requestKey = None,
             h_transitionReason = Some ''forged''\<rparr>),
         (exampleEnv 30 ''43'', Produce),
         (exampleEnv 40 ''43'', ControllerCall LiveController Reset)]
        (publishState
           (onConnect exampleConfig (exampleEnv 0 ''42'') ''UserData'' (initialDestState 10))))
        2 = \<lparr>elems = [], frozen = True\<rparr>"
proof -
  have ok: "store_ok (onConnect exampleConfig (exampleEnv 0 ''42'') ''UserData''
      (initialDestState 10))"
    using store_ok_run [of exampleConfig "[(exampleEnv 0 ''42'', Connect ''UserData'')]" 10]
    by simp
  show ?thesis
    using ok published_history_is_frozen_copy [OF ok, of exampleConfig
        "[(exampleEnv 10 ''42'', Produce),
         (exampleEnv 20 ''42'', ConsumerPush 1
            \<lparr>h_state = Idle None, h_timestamp = 20, h_requestKey = None,
             h_transitionReason = Some ''forged''\<rparr>),
         (exampleEnv 30 ''43'', Produce),
         (exampleEnv 40 ''43'', ControllerCall LiveController Reset)]"]
    by (simp add: onConnect_initial)
qed

end
